theory Spec2Isabelle
  imports Main "HOL-Library.Word" "HOL-Library.Multiset"
begin

section \<open>Input events and synthetic key injection\<close>

text \<open>
  \<^verbatim>\<open>struct input_event\<close> of the Linux input layer: a timestamp, an unsigned 16-bit
  type, an unsigned 16-bit code and a signed 32-bit value (kept as a 32-bit word; the
  code only tests it against zero).
\<close>

record input_event =
  tv_sec :: int
  tv_usec :: int
  ev_type :: "16 word"
  ev_code :: "16 word"
  ev_value :: "32 word"

text \<open>
  The event codes come from \<^verbatim>\<open>linux/input.h\<close> (kernel UAPI, not part of the
  repository's sources); their numeric values are those of the kernel header.
\<close>

definition EV_SYN :: int where "EV_SYN = 0"
definition EV_KEY :: int where "EV_KEY = 1"
definition SYN_REPORT :: int where "SYN_REPORT = 0"
definition KEY_POWER :: int where "KEY_POWER = 116"
definition KEY_WAKEUP :: int where "KEY_WAKEUP = 143"

text \<open>
  Everything a thread of the wakeup-count backend does to the outside world, in program
  order. File descriptors are \<open>int\<close>; a registered callback is identified by the
  address of the function (\<open>nat\<close>).
\<close>

datatype effect =
    UinputWrite int input_event
  | Sleep nat
  | Usleep nat
  | WakeupCountRead
  | SemWait
  | WakeupCountWrite string
  | PowerStateWrite string
  | Callback nat bool
  | SemPost
  | OpenFd string int
  | CloseFd int

text \<open>
  \<^verbatim>\<open>emit_key(ufd, key_code, val)\<close>: fills one event with \<open>EV_KEY\<close>, writes it,
  overwrites type, code and value with \<open>EV_SYN\<close>, \<open>SYN_REPORT\<close>, 0 and writes it again.
  The \<open>int\<close> arguments are converted to the field widths by assignment.
\<close>

definition emit_key :: "int \<Rightarrow> int \<Rightarrow> int \<Rightarrow> effect list" where
  "emit_key ufd key_code val =
     (let iev = \<lparr>tv_sec = 0, tv_usec = 0, ev_type = word_of_int EV_KEY,
                 ev_code = word_of_int key_code, ev_value = word_of_int val\<rparr>;
          iev' = iev\<lparr>ev_type := word_of_int EV_SYN, ev_code := word_of_int SYN_REPORT,
                     ev_value := 0\<rparr>
      in [UinputWrite ufd iev, UinputWrite ufd iev'])"

definition send_key_wakeup :: "int \<Rightarrow> effect list" where
  "send_key_wakeup ufd = emit_key ufd KEY_WAKEUP 1 @ emit_key ufd KEY_WAKEUP 0"

definition send_key_power :: "int \<Rightarrow> bool \<Rightarrow> effect list" where
  "send_key_power ufd longpress =
     emit_key ufd KEY_POWER 1 @ (if longpress then [Sleep 2] else []) @ emit_key ufd KEY_POWER 0"

section \<open>The wakeup callback slot\<close>

text \<open>
  \<^verbatim>\<open>static void (*wakeup_func)(bool success) = NULL\<close> is a slot holding a function
  address or \<open>NULL\<close> (\<open>None\<close>). \<^verbatim>\<open>set_wakeup_callback(func)\<close> returns early when the
  slot is not \<open>NULL\<close>, otherwise stores \<open>func\<close> (which may itself be \<open>NULL\<close>).
\<close>

definition set_wakeup_callback :: "nat option \<Rightarrow> nat option \<Rightarrow> nat option" where
  "set_wakeup_callback func wakeup_func =
     (if wakeup_func \<noteq> None then wakeup_func else func)"

text \<open>A sequence of registration calls, in order.\<close>

fun set_wakeup_callbacks :: "nat option list \<Rightarrow> nat option \<Rightarrow> nat option" where
  "set_wakeup_callbacks [] wakeup_func = wakeup_func"
| "set_wakeup_callbacks (func # fs) wakeup_func =
     set_wakeup_callbacks fs (set_wakeup_callback func wakeup_func)"

section \<open>The power-button monitor\<close>

subsection \<open>Startup scan of \<^verbatim>\<open>/dev/input\<close>\<close>

definition MAX_POWERBTNS :: nat where "MAX_POWERBTNS = 3"

text \<open>
  What the scan observes for one directory entry returned by \<^verbatim>\<open>readdir\<close>: its
  name, the result of \<^verbatim>\<open>open\<close> on it (a descriptor, or negative), the result of the
  \<^verbatim>\<open>EVIOCGNAME\<close> ioctl and the device name the ioctl stored in the buffer.
\<close>

record dirent =
  d_name :: string
  open_ret :: int
  ioctl_ret :: int
  reported_name :: string

text \<open>
  The contents of the name buffer at the \<^verbatim>\<open>strcmp\<close>: the reported name, or the
  empty string when the ioctl returned less than 1.
\<close>

definition device_name :: "dirent \<Rightarrow> string" where
  "device_name de = (if ioctl_ret de < 1 then [] else reported_name de)"

text \<open>
  The body of the \<^verbatim>\<open>while\<close> loop of \<^verbatim>\<open>openfds\<close>. \<open>pfds\<close> holds the
  descriptors stored so far (\<open>cnt\<close> is its length); the loop condition tests
  \<open>cnt < MAX_POWERBTNS\<close> before it reads the next entry.
\<close>

fun openfds_loop :: "int list \<Rightarrow> dirent list \<Rightarrow> int list \<times> effect list" where
  "openfds_loop pfds [] = (pfds, [])"
| "openfds_loop pfds (de # des) =
     (if \<not> length pfds < MAX_POWERBTNS then (pfds, [])
      else if (case d_name de of [] \<Rightarrow> True | c # _ \<Rightarrow> c \<noteq> CHR ''e'') then
        openfds_loop pfds des
      else if open_ret de < 0 then openfds_loop pfds des
      else if device_name de \<noteq> ''Power Button'' then
        (let (pfds', out) = openfds_loop pfds des
         in (pfds', OpenFd (''/dev/input/'' @ d_name de) (open_ret de)
                    # CloseFd (open_ret de) # out))
      else
        (let (pfds', out) = openfds_loop (pfds @ [open_ret de]) des
         in (pfds', OpenFd (''/dev/input/'' @ d_name de) (open_ret de) # out)))"

text \<open>
  \<^verbatim>\<open>openfds\<close>: \<open>None\<close> is a failed \<^verbatim>\<open>opendir\<close>; the result is the filled
  prefix of \<open>pfds\<close> (its length is the returned \<open>cnt\<close>).
\<close>

definition openfds :: "dirent list option \<Rightarrow> int list \<times> effect list" where
  "openfds dir = (case dir of None \<Rightarrow> ([], []) | Some des \<Rightarrow> openfds_loop [] des)"

subsection \<open>The monitor loop\<close>

record pb_state =
  timeout :: int
  longpress :: bool

text \<open>
  What one pass of the \<^verbatim>\<open>for\<close> loop finds on a descriptor: \<open>POLLIN\<close> not set;
  a read that returns fewer bytes than one event (from 0 up); a read that fails; or a
  read of one whole event. The result of \<^verbatim>\<open>read\<close> is stored in the unsigned
  \<^verbatim>\<open>size_t res\<close>, so the -1 of a failed read is not less than
  \<^verbatim>\<open>sizeof(iev)\<close>: the test \<^verbatim>\<open>res < sizeof(iev)\<close> does not skip it, and the
  loop goes on with whatever the uninitialized local \<open>iev\<close> holds. \<open>FailedRead\<close>
  carries those contents.
\<close>

datatype fd_input = NoInput | ShortRead | FailedRead input_event | InputEvent input_event

text \<open>The result of one \<^verbatim>\<open>poll\<close> call: negative, zero, or positive.\<close>

datatype poll_result = PollError | PollTimeout | PollReady "fd_input list"

definition is_power_release :: "input_event \<Rightarrow> bool" where
  "is_power_release iev \<longleftrightarrow>
     uint (ev_type iev) = EV_KEY \<and> uint (ev_code iev) = KEY_POWER \<and> ev_value iev = 0"

definition is_resume :: "input_event \<Rightarrow> bool" where
  "is_resume iev \<longleftrightarrow>
     uint (ev_type iev) = EV_SYN \<and> uint (ev_code iev) = SYN_REPORT \<and> ev_value iev \<noteq> 0"

text \<open>
  What the loop does with the contents of \<open>iev\<close> once the test on \<open>res\<close> has let it
  through.
\<close>

fun handle_event :: "bool \<Rightarrow> int \<Rightarrow> pb_state \<Rightarrow> input_event \<Rightarrow> pb_state \<times> effect list" where
  "handle_event doubleclick ufd st iev =
     (if is_power_release iev then
        (if \<not> doubleclick \<or> timeout st > 0
         then (st\<lparr>timeout := -1\<rparr>, send_key_power ufd (longpress st))
         else (st\<lparr>timeout := 1000\<rparr>, []))
      else if is_resume iev then (st\<lparr>longpress := False, timeout := 1000\<rparr>, [])
      else (st, []))"

text \<open>The body of the \<^verbatim>\<open>for\<close> loop for one descriptor.\<close>

fun handle_input :: "bool \<Rightarrow> int \<Rightarrow> pb_state \<Rightarrow> fd_input \<Rightarrow> pb_state \<times> effect list" where
  "handle_input doubleclick ufd st NoInput = (st, [])"
| "handle_input doubleclick ufd st ShortRead = (st, [])"
| "handle_input doubleclick ufd st (FailedRead iev) = handle_event doubleclick ufd st iev"
| "handle_input doubleclick ufd st (InputEvent iev) = handle_event doubleclick ufd st iev"

fun handle_inputs :: "bool \<Rightarrow> int \<Rightarrow> pb_state \<Rightarrow> fd_input list \<Rightarrow> pb_state \<times> effect list" where
  "handle_inputs doubleclick ufd st [] = (st, [])"
| "handle_inputs doubleclick ufd st (r # rs) =
     (let (st1, out1) = handle_input doubleclick ufd st r;
          (st2, out2) = handle_inputs doubleclick ufd st1 rs
      in (st2, out1 @ out2))"

text \<open>
  The \<^verbatim>\<open>while\<close> loop of \<^verbatim>\<open>powerbtnd_thread_func\<close>, run against the results of
  its successive \<^verbatim>\<open>poll\<close> calls. With \<open>cnt = 0\<close> no \<^verbatim>\<open>poll\<close> is made; a negative
  result ends the loop. \<^verbatim>\<open>poll\<close> returns 0 only when its timeout is not negative:
  with a negative timeout the thread stays blocked, so nothing further happens.
\<close>

fun powerbtnd_loop ::
  "bool \<Rightarrow> int \<Rightarrow> nat \<Rightarrow> pb_state \<Rightarrow> poll_result list \<Rightarrow> pb_state \<times> effect list" where
  "powerbtnd_loop doubleclick ufd cnt st [] = (st, [])"
| "powerbtnd_loop doubleclick ufd cnt st (p # ps) =
     (if \<not> cnt > 0 then (st, [])
      else case p of
        PollError \<Rightarrow> (st, [])
      | PollTimeout \<Rightarrow>
          (if timeout st < 0 then (st, [])
           else (let (st', out) =
                       powerbtnd_loop doubleclick ufd cnt (st\<lparr>timeout := -1, longpress := True\<rparr>) ps
                 in (st', send_key_power ufd False @ out)))
      | PollReady rs \<Rightarrow>
          (let (st1, out1) = handle_inputs doubleclick ufd st (take cnt rs);
               (st2, out2) = powerbtnd_loop doubleclick ufd cnt st1 ps
           in (st2, out1 @ out2)))"

text \<open>
  \<^verbatim>\<open>powerbtnd_thread_func\<close>: \<open>doubleclick\<close> is the value of the boolean property
  \<^verbatim>\<open>poweroff.doubleclick\<close>, \<open>ufd\<close> the global \<open>uinput_fd\<close>.
\<close>

definition powerbtnd_thread_func ::
  "bool \<Rightarrow> int \<Rightarrow> dirent list option \<Rightarrow> poll_result list \<Rightarrow> effect list" where
  "powerbtnd_thread_func doubleclick ufd dir polls =
     (let (pfds, out) = openfds dir;
          (st, out') = powerbtnd_loop doubleclick ufd (length pfds)
                         \<lparr>timeout = -1, longpress = True\<rparr> polls
      in out @ out')"

text \<open>
  The descriptors left open by a sequence of effects, starting from the table \<open>tbl\<close>:
  \<^verbatim>\<open>open\<close> adds its descriptor, \<^verbatim>\<open>close\<close> removes it.
\<close>

fun fd_table :: "int multiset \<Rightarrow> effect list \<Rightarrow> int multiset" where
  "fd_table tbl [] = tbl"
| "fd_table tbl (OpenFd p fd # es) = fd_table (add_mset fd tbl) es"
| "fd_table tbl (CloseFd fd # es) = fd_table (tbl - {#fd#}) es"
| "fd_table tbl (e # es) = fd_table tbl es"

fun is_uinput_write :: "effect \<Rightarrow> bool" where
  "is_uinput_write (UinputWrite fd iev) = True"
| "is_uinput_write e = False"

fun is_open :: "effect \<Rightarrow> bool" where
  "is_open (OpenFd p fd) = True"
| "is_open e = False"

text \<open>An entry the scan keeps: an \<open>e\<close>-name that opens and reports the name sought.\<close>

definition power_button_dev :: "dirent \<Rightarrow> bool" where
  "power_button_dev de \<longleftrightarrow>
     (case d_name de of [] \<Rightarrow> False | c # _ \<Rightarrow> c = CHR ''e'') \<and> 0 \<le> open_ret de
     \<and> device_name de = ''Power Button''"

section \<open>The environment of the controller and the backends\<close>

text \<open>
  The outcomes of the system calls and library calls the controller and the two backends
  make, as observed by one call into the library. The property functions of libcutils
  are not among the sources, so the contents of the buffer after each
  \<^verbatim>\<open>property_get\<close> call are taken as given:
  \<^item> \<open>prop_earlysuspend\<close>: the buffer after
    \<^verbatim>\<open>property_get("sleep.earlysuspend", buf, "1")\<close>;
  \<^item> \<open>prop_sleep_state\<close>: the buffer after
    \<^verbatim>\<open>property_get("sleep.state", sleep_state, NULL)\<close>, whose return value is its
    length (0 when the property is unset or empty);
  \<^item> \<open>power_state_ro\<close>: \<open>None\<close> when \<^verbatim>\<open>open(SYS_POWER_STATE, O_RDONLY)\<close> fails,
    otherwise the string in the buffer that \<^verbatim>\<open>strstr\<close> searches;
  \<^item> \<open>es_open_ok\<close>, \<open>es_read_ok\<close>: the \<^verbatim>\<open>open\<close> and the \<^verbatim>\<open>read\<close> of
    \<^verbatim>\<open>open_file(SYS_POWER_STATE, ...)\<close> in the early-suspend initialization succeed;
  \<^item> \<open>fb_sleep_access\<close>, \<open>fb_wake_access\<close>: \<^verbatim>\<open>access(..., F_OK)\<close> on the two
    fb-wait nodes succeeds;
  \<^item> \<open>es_thread_ok\<close>, \<open>suspend_thread_ok\<close>: the \<^verbatim>\<open>pthread_create\<close> calls succeed;
  \<^item> \<open>uinput_open\<close>: the result of \<^verbatim>\<open>open("/dev/uinput", ...)\<close>;
  \<^item> \<open>wc_state_open_ok\<close>, \<open>wc_count_open_ok\<close>, \<open>sem_init_ok\<close>: the two opens and the
    \<^verbatim>\<open>sem_init\<close> of the wakeup-count initialization succeed;
  \<^item> \<open>es_write_ret\<close>: the result of the write of the sleep state in the early-suspend
    \<open>enable\<close>; \<open>fb_reached\<close>: the monitor thread brings \<open>earlysuspend_state\<close> to the
    value a caller waits for;
  \<^item> \<open>sem_post_ret\<close>, \<open>sem_wait_ret\<close>: the results of the semaphore calls of the
    wakeup-count \<open>enable\<close> and \<open>disable\<close>.
\<close>

record sysenv =
  prop_earlysuspend :: string
  prop_sleep_state :: string
  power_state_ro :: "string option"
  es_open_ok :: bool
  es_read_ok :: bool
  fb_sleep_access :: bool
  fb_wake_access :: bool
  es_thread_ok :: bool
  uinput_open :: int
  wc_state_open_ok :: bool
  wc_count_open_ok :: bool
  sem_init_ok :: bool
  suspend_thread_ok :: bool
  es_write_ret :: int
  fb_reached :: bool
  sem_post_ret :: int
  sem_wait_ret :: int

section \<open>The sleep state\<close>

definition default_sleep_state :: string where "default_sleep_state = ''mem''"
definition fallback_sleep_state :: string where "fallback_sleep_state = ''freeze''"

text \<open>\<^verbatim>\<open>strstr(buf, state) != NULL\<close>: \<open>state\<close> occurs in \<open>buf\<close>.\<close>

fun strstr :: "string \<Rightarrow> string \<Rightarrow> bool" where
  "strstr [] needle = (needle = [])"
| "strstr (c # cs) needle = (take (length needle) (c # cs) = needle \<or> strstr cs needle)"

definition sleep_state_available :: "sysenv \<Rightarrow> string \<Rightarrow> bool" where
  "sleep_state_available env state =
     (case power_state_ro env of None \<Rightarrow> False | Some buf \<Rightarrow> strstr buf state)"

text \<open>
  \<^verbatim>\<open>get_sleep_state()\<close>. The argument \<open>sleep_state\<close> is the function's static
  buffer, initially empty; the result is the buffer after the call, which is also the
  string the function returns (it returns the buffer's address).
\<close>

definition get_sleep_state :: "sysenv \<Rightarrow> string \<Rightarrow> string" where
  "get_sleep_state env sleep_state =
     (if sleep_state = [] then
        (if int (length (prop_sleep_state env)) > 0 then prop_sleep_state env
         else if sleep_state_available env default_sleep_state then default_sleep_state
         else fallback_sleep_state)
      else sleep_state)"

text \<open>Successive calls, each under the environment of its moment.\<close>

fun get_sleep_states :: "sysenv list \<Rightarrow> string \<Rightarrow> string list" where
  "get_sleep_states [] sleep_state = []"
| "get_sleep_states (env # envs) sleep_state =
     get_sleep_state env sleep_state # get_sleep_states envs (get_sleep_state env sleep_state)"

section \<open>One cycle of the wakeup-count suspend loop\<close>

text \<open>
  The outcomes of the calls of one pass through the body of the \<^verbatim>\<open>while (1)\<close> loop of
  \<^verbatim>\<open>suspend_thread_func\<close>: the length returned by the read of the counter and the
  buffer it filled, and the results of \<^verbatim>\<open>sem_wait\<close>, of the write of the token, of
  the write of the sleep state and of \<^verbatim>\<open>sem_post\<close>.
\<close>

record cycle_env =
  wakeup_count_len :: int
  wakeup_count :: string
  wait_ret :: int
  commit_ret :: int
  state_ret :: int
  post_ret :: int

text \<open>
  What one pass leaves behind: the static buffer of \<open>get_sleep_state\<close>, the final value
  of the local \<open>success\<close> (\<open>None\<close> when the pass ended before it was assigned) and the
  effects in program order.
\<close>

record cycle_result =
  cr_sleep_state :: string
  cr_success :: "bool option"
  cr_effects :: "effect list"

definition suspend_cycle ::
  "sysenv \<Rightarrow> cycle_env \<Rightarrow> nat option \<Rightarrow> int \<Rightarrow> string \<Rightarrow> cycle_result" where
  "suspend_cycle env c wakeup_func ufd sleep_state =
     (if wakeup_count_len c < 0 then
        \<lparr>cr_sleep_state = sleep_state, cr_success = None,
         cr_effects = [Usleep 100000, WakeupCountRead]\<rparr>
      else if wakeup_count_len c = 0 then
        \<lparr>cr_sleep_state = sleep_state, cr_success = None,
         cr_effects = [Usleep 100000, WakeupCountRead]\<rparr>
      else if wait_ret c < 0 then
        \<lparr>cr_sleep_state = sleep_state, cr_success = None,
         cr_effects = [Usleep 100000, WakeupCountRead, SemWait]\<rparr>
      else if commit_ret c < 0 then
        \<lparr>cr_sleep_state = sleep_state, cr_success = Some True,
         cr_effects = [Usleep 100000, WakeupCountRead, SemWait,
                       WakeupCountWrite (take (nat (wakeup_count_len c)) (wakeup_count c)),
                       SemPost]\<rparr>
      else
        (let sleep_state' = get_sleep_state env sleep_state;
             success = \<not> state_ret c < 0
         in \<lparr>cr_sleep_state = sleep_state', cr_success = Some success,
             cr_effects =
               [Usleep 100000, WakeupCountRead, SemWait,
                WakeupCountWrite (take (nat (wakeup_count_len c)) (wakeup_count c)),
                PowerStateWrite sleep_state']
               @ (if state_ret c < 0 then [] else send_key_wakeup ufd)
               @ (case wakeup_func of None \<Rightarrow> [] | Some func \<Rightarrow> [Callback func success])
               @ [SemPost]\<rparr>))"

fun is_callback :: "effect \<Rightarrow> bool" where
  "is_callback (Callback func b) = True"
| "is_callback e = False"

fun is_power_state_write :: "effect \<Rightarrow> bool" where
  "is_power_state_write (PowerStateWrite str) = True"
| "is_power_state_write e = False"

section \<open>A sample environment\<close>

text \<open>
  An environment in which every call succeeds except the access to the fb-sleep node,
  with the override property set to \<open>freeze\<close>; the concrete evaluations below start
  from it.
\<close>

definition env0 :: sysenv where
  "env0 = \<lparr>prop_earlysuspend = ''1'', prop_sleep_state = ''freeze'',
     power_state_ro = Some ''freeze mem disk'', es_open_ok = True, es_read_ok = True,
     fb_sleep_access = False, fb_wake_access = True, es_thread_ok = True, uinput_open = 7,
     wc_state_open_ok = True, wc_count_open_ok = True, sem_init_ok = True,
     suspend_thread_ok = True, es_write_ret = 3, fb_reached = True, sem_post_ret = 0,
     sem_wait_ret = 0\<rparr>"

section \<open>The backends and the controller\<close>

text \<open>
  The value of the pointer \<^verbatim>\<open>autosuspend_ops\<close>: \<open>NULL\<close> is \<open>None\<close>, and the two
  possible targets are the addresses of the global structures
  \<^verbatim>\<open>autosuspend_earlysuspend_ops\<close> and \<^verbatim>\<open>autosuspend_wakeup_count_ops\<close>.
\<close>

datatype backend = Earlysuspend_ops | Wakeup_count_ops

datatype thread = Earlysuspend_thread | Powerbtnd_thread | Suspend_thread

text \<open>
  The static variables of the three files that the controller and the backends' entry
  points read and write, with three records of what has happened: the threads created,
  the strings written to the power-state node by the early-suspend backend, and the
  backend initializations called so far (\<open>probes\<close>).
\<close>

record engine =
  autosuspend_ops :: "backend option"
  autosuspend_enabled :: bool
  autosuspend_inited :: bool
  sleep_state_buf :: string
  wait_for_earlysuspend :: bool
  uinput_fd :: int
  suspend_lockout :: nat
  threads :: "thread list"
  power_state_writes :: "string list"
  probes :: "backend list"

definition engine0 :: engine where
  "engine0 = \<lparr>autosuspend_ops = None, autosuspend_enabled = False, autosuspend_inited = False,
     sleep_state_buf = [], wait_for_earlysuspend = False, uinput_fd = -1, suspend_lockout = 0,
     threads = [], power_state_writes = [], probes = []\<rparr>"

subsection \<open>The early-suspend backend\<close>

text \<open>
  \<^verbatim>\<open>start_earlysuspend_thread\<close> returns early when either fb-wait node is not
  accessible or the thread cannot be created; the blocking read of the fb-wake node in
  between has no effect on the variables (its result is ignored).
\<close>

definition start_earlysuspend_thread :: "sysenv \<Rightarrow> engine \<Rightarrow> engine" where
  "start_earlysuspend_thread env s =
     (if \<not> fb_sleep_access env then s
      else if \<not> fb_wake_access env then s
      else if \<not> es_thread_ok env then s
      else s\<lparr>threads := threads s @ [Earlysuspend_thread], wait_for_earlysuspend := True\<rparr>)"

text \<open>
  \<^verbatim>\<open>autosuspend_earlysuspend_init\<close>: \<^verbatim>\<open>open_file\<close> returns a negative value
  exactly when its \<^verbatim>\<open>read\<close> fails, which it does when the \<^verbatim>\<open>open\<close> failed.
\<close>

definition autosuspend_earlysuspend_init :: "sysenv \<Rightarrow> engine \<Rightarrow> backend option \<times> engine" where
  "autosuspend_earlysuspend_init env s =
     (let s1 = s\<lparr>probes := probes s @ [Earlysuspend_ops]\<rparr>
      in if \<not> (es_open_ok env \<and> es_read_ok env) then (None, s1)
         else (Some Earlysuspend_ops, start_earlysuspend_thread env s1))"

text \<open>
  The entry points return \<open>None\<close> when the call does not return: the wait on the
  condition variable never ends unless the monitor thread reaches the awaited state.
\<close>

definition autosuspend_earlysuspend_enable :: "sysenv \<Rightarrow> engine \<Rightarrow> (int \<times> engine) option" where
  "autosuspend_earlysuspend_enable env s =
     (let s1 = s\<lparr>sleep_state_buf := get_sleep_state env (sleep_state_buf s)\<rparr>
      in if es_write_ret env < 0 then Some (es_write_ret env, s1)
         else (let s2 = s1\<lparr>power_state_writes := power_state_writes s1 @ [sleep_state_buf s1]\<rparr>
               in if wait_for_earlysuspend s2 \<and> \<not> fb_reached env then None
                  else Some (0, s2)))"

definition autosuspend_earlysuspend_disable :: "sysenv \<Rightarrow> engine \<Rightarrow> (int \<times> engine) option" where
  "autosuspend_earlysuspend_disable env s =
     (let s1 = (if es_write_ret env < 0 then s
                else s\<lparr>power_state_writes := power_state_writes s @ [''on'']\<rparr>)
      in if wait_for_earlysuspend s1 \<and> \<not> fb_reached env then None
         else Some (0, s1))"

subsection \<open>The wakeup-count backend\<close>

definition init_android_power_button :: "sysenv \<Rightarrow> engine \<Rightarrow> engine" where
  "init_android_power_button env s =
     (if uinput_fd s \<ge> 0 then s
      else if uinput_open env < 0 then s\<lparr>uinput_fd := uinput_open env\<rparr>
      else s\<lparr>uinput_fd := uinput_open env, threads := threads s @ [Powerbtnd_thread]\<rparr>)"

definition autosuspend_wakeup_count_init :: "sysenv \<Rightarrow> engine \<Rightarrow> backend option \<times> engine" where
  "autosuspend_wakeup_count_init env s =
     (let s1 = init_android_power_button env (s\<lparr>probes := probes s @ [Wakeup_count_ops]\<rparr>)
      in if \<not> wc_state_open_ok env then (None, s1)
         else if \<not> wc_count_open_ok env then (None, s1)
         else if \<not> sem_init_ok env then (None, s1)
         else if \<not> suspend_thread_ok env then (None, s1\<lparr>suspend_lockout := 0\<rparr>)
         else (Some Wakeup_count_ops,
               s1\<lparr>suspend_lockout := 0, threads := threads s1 @ [Suspend_thread]\<rparr>))"

text \<open>
  \<^verbatim>\<open>sem_post\<close> adds a permit unless it fails. \<^verbatim>\<open>sem_wait\<close> takes a permit;
  seen from the calling thread alone, with no permit it does not return unless it fails.
\<close>

definition autosuspend_wakeup_count_enable :: "sysenv \<Rightarrow> engine \<Rightarrow> (int \<times> engine) option" where
  "autosuspend_wakeup_count_enable env s =
     (if sem_post_ret env < 0 then Some (sem_post_ret env, s)
      else Some (sem_post_ret env, s\<lparr>suspend_lockout := suspend_lockout s + 1\<rparr>))"

definition autosuspend_wakeup_count_disable :: "sysenv \<Rightarrow> engine \<Rightarrow> (int \<times> engine) option" where
  "autosuspend_wakeup_count_disable env s =
     (if sem_wait_ret env < 0 then Some (sem_wait_ret env, s)
      else if suspend_lockout s = 0 then None
      else Some (sem_wait_ret env, s\<lparr>suspend_lockout := suspend_lockout s - 1\<rparr>))"

subsection \<open>Dispatch through the ops structure\<close>

fun ops_enable :: "backend \<Rightarrow> sysenv \<Rightarrow> engine \<Rightarrow> (int \<times> engine) option" where
  "ops_enable Earlysuspend_ops = autosuspend_earlysuspend_enable"
| "ops_enable Wakeup_count_ops = autosuspend_wakeup_count_enable"

fun ops_disable :: "backend \<Rightarrow> sysenv \<Rightarrow> engine \<Rightarrow> (int \<times> engine) option" where
  "ops_disable Earlysuspend_ops = autosuspend_earlysuspend_disable"
| "ops_disable Wakeup_count_ops = autosuspend_wakeup_count_disable"

subsection \<open>The controller\<close>

text \<open>The test \<^verbatim>\<open>buf[0] == '1'\<close> on the buffer of the early-suspend property.\<close>

definition earlysuspend_flag :: "sysenv \<Rightarrow> bool" where
  "earlysuspend_flag env =
     (case prop_earlysuspend env of [] \<Rightarrow> False | c # _ \<Rightarrow> c = CHR ''1'')"

definition autosuspend_init :: "sysenv \<Rightarrow> engine \<Rightarrow> int \<times> engine" where
  "autosuspend_init env s =
     (if autosuspend_inited s then (0, s)
      else
        (let s1 = (if earlysuspend_flag env
                   then (let (ops, s') = autosuspend_earlysuspend_init env s
                         in s'\<lparr>autosuspend_ops := ops\<rparr>)
                   else s)
         in if autosuspend_ops s1 \<noteq> None then (0, s1\<lparr>autosuspend_inited := True\<rparr>)
            else
              (let (ops, s2) = autosuspend_wakeup_count_init env s1;
                   s3 = s2\<lparr>autosuspend_ops := ops\<rparr>
               in if autosuspend_ops s3 \<noteq> None then (0, s3\<lparr>autosuspend_inited := True\<rparr>)
                  else (-1, s3))))"

text \<open>
  \<^verbatim>\<open>autosuspend_enable\<close> and \<^verbatim>\<open>autosuspend_disable\<close>. \<open>None\<close>: the call does not
  return (the backend's entry point does not, or the pointer called through is \<open>NULL\<close>).
\<close>

definition autosuspend_enable :: "sysenv \<Rightarrow> engine \<Rightarrow> (int \<times> engine) option" where
  "autosuspend_enable env s =
     (let (ret, s1) = autosuspend_init env s
      in if ret \<noteq> 0 then Some (ret, s1)
         else if autosuspend_enabled s1 then Some (0, s1)
         else (case autosuspend_ops s1 of
                 None \<Rightarrow> None
               | Some ops \<Rightarrow>
                   (case ops_enable ops env s1 of
                      None \<Rightarrow> None
                    | Some (ret', s2) \<Rightarrow>
                        if ret' \<noteq> 0 then Some (ret', s2)
                        else Some (0, s2\<lparr>autosuspend_enabled := True\<rparr>))))"

definition autosuspend_disable :: "sysenv \<Rightarrow> engine \<Rightarrow> (int \<times> engine) option" where
  "autosuspend_disable env s =
     (let (ret, s1) = autosuspend_init env s
      in if ret \<noteq> 0 then Some (ret, s1)
         else if \<not> autosuspend_enabled s1 then Some (0, s1)
         else (case autosuspend_ops s1 of
                 None \<Rightarrow> None
               | Some ops \<Rightarrow>
                   (case ops_disable ops env s1 of
                      None \<Rightarrow> None
                    | Some (ret', s2) \<Rightarrow>
                        if ret' \<noteq> 0 then Some (ret', s2)
                        else Some (0, s2\<lparr>autosuspend_enabled := False\<rparr>))))"

text \<open>
  The backend initializations one call of \<open>autosuspend_init\<close> makes when it probes:
  early suspend when the flag is set, then wakeup count unless early suspend was
  selected.
\<close>

definition probe_sequence :: "sysenv \<Rightarrow> backend list" where
  "probe_sequence env =
     (if earlysuspend_flag env then [Earlysuspend_ops] else [])
     @ (if earlysuspend_flag env \<and> es_open_ok env \<and> es_read_ok env then []
        else [Wakeup_count_ops])"

text \<open>Every step of the wakeup-count initialization succeeds.\<close>

definition wakeup_count_ok :: "sysenv \<Rightarrow> bool" where
  "wakeup_count_ok env \<longleftrightarrow>
     wc_state_open_ok env \<and> wc_count_open_ok env \<and> sem_init_ok env \<and> suspend_thread_ok env"

text \<open>
  An environment in which no backend can initialize, and the engine as the wakeup-count
  initialization leaves it under the sample environment with the early-suspend flag off.
\<close>

definition env_fail :: sysenv where
  "env_fail = env0\<lparr>es_open_ok := False, wc_state_open_ok := False\<rparr>"

definition engine1 :: engine where
  "engine1 = engine0\<lparr>autosuspend_ops := Some Wakeup_count_ops, autosuspend_inited := True,
     uinput_fd := 7, threads := [Powerbtnd_thread, Suspend_thread],
     probes := [Wakeup_count_ops]\<rparr>"

text \<open>The engine with early suspend selected and its monitor thread running.\<close>

definition engine2 :: engine where
  "engine2 = engine0\<lparr>autosuspend_ops := Some Earlysuspend_ops, autosuspend_inited := True,
     wait_for_earlysuspend := True, threads := [Earlysuspend_thread],
     probes := [Earlysuspend_ops]\<rparr>"

section \<open>The suspend loop and its callers, interleaved\<close>

text \<open>
  The wakeup-count backend is selected and initialized: the semaphore
  \<open>suspend_lockout\<close> starts at 0 and the suspend thread runs its loop. Caller threads
  (numbered) call \<open>autosuspend_enable\<close> and \<open>autosuspend_disable\<close>, whose
  initialization returns 0 at once. Each thread advances by atomic steps, one semaphore
  operation or one access to \<open>autosuspend_enabled\<close> at a time, and the steps of the
  threads interleave in any order.

  Where the loop stands: before the read of the counter (which follows the
  \<^verbatim>\<open>usleep\<close>), before \<^verbatim>\<open>sem_wait\<close>, before the commit write, before the write of
  the sleep state (with the key injection and the callback after it), before
  \<^verbatim>\<open>sem_post\<close>.
\<close>

datatype loop_pc = L_read | L_wait | L_commit | L_suspend | L_post

text \<open>
  Where a caller stands: outside the library; in \<open>autosuspend_enable\<close> having read
  \<open>autosuspend_enabled\<close> as false, before \<open>autosuspend_ops->enable()\<close>; after its
  \<^verbatim>\<open>sem_post\<close>, before the assignment of the flag; and the same two places in
  \<open>autosuspend_disable\<close>.
\<close>

datatype caller_pc = Idle | En_op | En_set | Dis_op | Dis_set

text \<open>
  \<open>lockout\<close> is the value of the semaphore and \<open>enabled_flag\<close> the variable
  \<open>autosuspend_enabled\<close>. Three history variables record what has happened: \<open>held\<close>
  counts the permits consumed by a \<open>disable\<close> and not yet given back by an \<open>enable\<close>
  posting one, \<open>commits\<close> the commit writes executed, and \<open>locked_commits\<close> those
  executed while \<open>held\<close> was not 0.
\<close>

record sys =
  lockout :: nat
  enabled_flag :: bool
  lpc :: loop_pc
  cpc :: "nat \<Rightarrow> caller_pc"
  held :: nat
  commits :: nat
  locked_commits :: nat

definition sys0 :: sys where
  "sys0 = \<lparr>lockout = 0, enabled_flag = False, lpc = L_read, cpc = (\<lambda>t. Idle), held = 0,
     commits = 0, locked_commits = 0\<rparr>"

text \<open>
  The steps. Those of the loop carry the result of the call made: the length read, whether
  \<^verbatim>\<open>sem_wait\<close> and \<^verbatim>\<open>sem_post\<close> succeeded, the results of the two writes. Those
  of a caller carry its thread number, and whether its semaphore call succeeded.
\<close>

datatype action =
    Loop_read int
  | Loop_sem_wait bool
  | Loop_commit int
  | Loop_suspend int
  | Loop_sem_post bool
  | Call_enable nat
  | Enable_op nat bool
  | Enable_set nat
  | Call_disable nat
  | Disable_op nat bool
  | Disable_set nat

text \<open>
  One step; \<open>None\<close> when the thread is not at that place, or is blocked there (a
  successful \<^verbatim>\<open>sem_wait\<close> needs a permit).
\<close>

fun step :: "action \<Rightarrow> sys \<Rightarrow> sys option" where
  "step (Loop_read n) s =
     (if lpc s \<noteq> L_read then None
      else if n < 0 then Some s
      else if n = 0 then Some s
      else Some (s\<lparr>lpc := L_wait\<rparr>))"
| "step (Loop_sem_wait ok) s =
     (if lpc s \<noteq> L_wait then None
      else if \<not> ok then Some (s\<lparr>lpc := L_read\<rparr>)
      else if lockout s = 0 then None
      else Some (s\<lparr>lockout := lockout s - 1, lpc := L_commit\<rparr>))"
| "step (Loop_commit ret) s =
     (if lpc s \<noteq> L_commit then None
      else Some (s\<lparr>commits := commits s + 1,
                   locked_commits := locked_commits s + (if held s > 0 then 1 else 0),
                   lpc := (if ret < 0 then L_post else L_suspend)\<rparr>))"
| "step (Loop_suspend ret) s =
     (if lpc s \<noteq> L_suspend then None else Some (s\<lparr>lpc := L_post\<rparr>))"
| "step (Loop_sem_post ok) s =
     (if lpc s \<noteq> L_post then None
      else Some (s\<lparr>lockout := (if ok then lockout s + 1 else lockout s), lpc := L_read\<rparr>))"
| "step (Call_enable t) s =
     (if cpc s t \<noteq> Idle then None
      else if enabled_flag s then Some s
      else Some (s\<lparr>cpc := (cpc s)(t := En_op)\<rparr>))"
| "step (Enable_op t ok) s =
     (if cpc s t \<noteq> En_op then None
      else if \<not> ok then Some (s\<lparr>cpc := (cpc s)(t := Idle)\<rparr>)
      else Some (s\<lparr>lockout := lockout s + 1, held := held s - 1,
                   cpc := (cpc s)(t := En_set)\<rparr>))"
| "step (Enable_set t) s =
     (if cpc s t \<noteq> En_set then None
      else Some (s\<lparr>enabled_flag := True, cpc := (cpc s)(t := Idle)\<rparr>))"
| "step (Call_disable t) s =
     (if cpc s t \<noteq> Idle then None
      else if \<not> enabled_flag s then Some s
      else Some (s\<lparr>cpc := (cpc s)(t := Dis_op)\<rparr>))"
| "step (Disable_op t ok) s =
     (if cpc s t \<noteq> Dis_op then None
      else if \<not> ok then Some (s\<lparr>cpc := (cpc s)(t := Idle)\<rparr>)
      else if lockout s = 0 then None
      else Some (s\<lparr>lockout := lockout s - 1, held := held s + 1,
                   cpc := (cpc s)(t := Dis_set)\<rparr>))"
| "step (Disable_set t) s =
     (if cpc s t \<noteq> Dis_set then None
      else Some (s\<lparr>enabled_flag := False, cpc := (cpc s)(t := Idle)\<rparr>))"

text \<open>An interleaving: the steps in the order they happen.\<close>

fun run :: "action list \<Rightarrow> sys \<Rightarrow> sys option" where
  "run [] s = Some s"
| "run (a # as) s = (case step a s of None \<Rightarrow> None | Some s' \<Rightarrow> run as s')"

fun caller_of :: "action \<Rightarrow> nat option" where
  "caller_of (Call_enable t) = Some t"
| "caller_of (Enable_op t ok) = Some t"
| "caller_of (Enable_set t) = Some t"
| "caller_of (Call_disable t) = Some t"
| "caller_of (Disable_op t ok) = Some t"
| "caller_of (Disable_set t) = Some t"
| "caller_of a = None"

text \<open>All the calls of an interleaving are made by the one thread \<open>t\<close>.\<close>

definition one_caller :: "nat \<Rightarrow> action list \<Rightarrow> bool" where
  "one_caller t as = list_all (\<lambda>a. caller_of a = None \<or> caller_of a = Some t) as"

text \<open>The permits in the semaphore or in the hands of the loop.\<close>

fun loop_holds :: "loop_pc \<Rightarrow> nat" where
  "loop_holds L_read = 0"
| "loop_holds L_wait = 0"
| "loop_holds L_commit = 1"
| "loop_holds L_suspend = 1"
| "loop_holds L_post = 1"

definition permits :: "sys \<Rightarrow> nat" where
  "permits s = lockout s + loop_holds (lpc s)"

fun is_commit :: "effect \<Rightarrow> bool" where
  "is_commit (WakeupCountWrite tok) = True"
| "is_commit e = False"

text \<open>
  What holds at every moment when one thread \<open>t\<close> makes all the calls: there is at most
  one permit, counting the one a \<open>disable\<close> holds, no commit has been executed while one
  was held, and the flag agrees with the permits at each place of the caller.
\<close>

definition caller_inv :: "nat \<Rightarrow> sys \<Rightarrow> bool" where
  "caller_inv t s \<longleftrightarrow>
     permits s + held s \<le> 1 \<and> locked_commits s = 0
     \<and> (case cpc s t of
           Idle \<Rightarrow> enabled_flag s \<or> permits s = 0
         | En_op \<Rightarrow> \<not> enabled_flag s \<and> permits s = 0
         | En_set \<Rightarrow> \<not> enabled_flag s
         | Dis_op \<Rightarrow> enabled_flag s
         | Dis_set \<Rightarrow> enabled_flag s \<and> permits s = 0)"

text \<open>
  A pass of the loop reaches the commit write: the counter was read and the semaphore
  acquired.
\<close>

definition reaches_commit :: "cycle_env \<Rightarrow> bool" where
  "reaches_commit c \<longleftrightarrow> 0 < wakeup_count_len c \<and> \<not> wait_ret c < 0"

text \<open>
  Two interleavings. In the first, one thread enables, the loop runs one full cycle, the
  thread disables and the loop reads the counter again. In the second, two threads are in
  \<open>autosuspend_enable\<close> together: both read the flag before either has set it.
\<close>

definition trace1 :: "action list" where
  "trace1 = [Call_enable 0, Enable_op 0 True, Enable_set 0,
             Loop_read 2, Loop_sem_wait True, Loop_commit 0, Loop_suspend 0, Loop_sem_post True,
             Call_disable 0, Disable_op 0 True, Disable_set 0, Loop_read 2]"

definition trace2 :: "action list" where
  "trace2 = [Call_enable 0, Call_enable 1, Enable_op 0 True, Enable_op 1 True,
             Enable_set 0, Enable_set 1,
             Call_disable 0, Disable_op 0 True, Disable_set 0,
             Loop_read 2, Loop_sem_wait True, Loop_commit 0]"

section \<open>Reads of the monitor that do not fail\<close>

text \<open>
  The inputs of a descriptor other than a failed read; a resume event that was read in
  full; and the same two notions for the result of one \<^verbatim>\<open>poll\<close>.
\<close>

fun no_failed_read :: "fd_input \<Rightarrow> bool" where
  "no_failed_read (FailedRead iev) = False"
| "no_failed_read r = True"

fun resume_input :: "fd_input \<Rightarrow> bool" where
  "resume_input (InputEvent iev) = is_resume iev"
| "resume_input r = False"

fun no_failed_reads :: "poll_result \<Rightarrow> bool" where
  "no_failed_reads (PollReady rs) = list_all no_failed_read rs"
| "no_failed_reads p = True"

fun has_resume :: "poll_result \<Rightarrow> bool" where
  "has_resume (PollReady rs) = list_ex resume_input rs"
| "has_resume p = False"

section \<open>The threads of the wakeup-count backend together\<close>

text \<open>
  \<^verbatim>\<open>suspend_thread_func\<close>: the passes of the endless loop, one after the other, each
  under the environment and the call results of its moment; the static buffer of
  \<open>get_sleep_state\<close> is carried from pass to pass.
\<close>

fun suspend_thread_func ::
  "(sysenv \<times> cycle_env) list \<Rightarrow> nat option \<Rightarrow> int \<Rightarrow> string \<Rightarrow> effect list" where
  "suspend_thread_func [] wakeup_func ufd sleep_state = []"
| "suspend_thread_func ((env, c) # cs) wakeup_func ufd sleep_state =
     cr_effects (suspend_cycle env c wakeup_func ufd sleep_state)
     @ suspend_thread_func cs wakeup_func ufd
         (cr_sleep_state (suspend_cycle env c wakeup_func ufd sleep_state))"

text \<open>
  What \<^verbatim>\<open>autosuspend_wakeup_count_init\<close> sets going: the pointer it returns and the
  variables it leaves, what the power-button thread does (it is created by
  \<open>init_android_power_button\<close> when \<open>uinput_fd\<close> was negative and the uinput device
  opens; it scans the directory \<open>dir\<close> and then polls), and what the suspend thread does
  (it is created when the initialization succeeds).
\<close>

record backend_activity =
  ba_ops :: "backend option"
  ba_engine :: engine
  ba_powerbtnd :: "effect list"
  ba_suspend :: "effect list"

definition wakeup_count_backend ::
  "sysenv \<Rightarrow> engine \<Rightarrow> bool \<Rightarrow> dirent list option \<Rightarrow> poll_result list \<Rightarrow>
   (sysenv \<times> cycle_env) list \<Rightarrow> nat option \<Rightarrow> backend_activity" where
  "wakeup_count_backend env s doubleclick dir polls cycles wakeup_func =
     (let (ops, s1) = autosuspend_wakeup_count_init env s
      in \<lparr>ba_ops = ops, ba_engine = s1,
          ba_powerbtnd =
            (if uinput_fd s < 0 \<and> 0 \<le> uinput_open env
             then powerbtnd_thread_func doubleclick (uinput_fd s1) dir polls else []),
          ba_suspend =
            (if ops = None then []
             else suspend_thread_func cycles wakeup_func (uinput_fd s1) (sleep_state_buf s1))\<rparr>)"

text \<open>
  What the controller's three variables satisfy at every moment: the engine is enabled
  only when initialized, and it is initialized exactly when a backend is selected. It
  holds at startup and \<open>autosuspend_enable\<close> and \<open>autosuspend_disable\<close> keep it.
\<close>

definition engine_ok :: "engine \<Rightarrow> bool" where
  "engine_ok s \<longleftrightarrow>
     (autosuspend_inited s \<or> \<not> autosuspend_enabled s)
     \<and> (autosuspend_inited s \<longleftrightarrow> autosuspend_ops s \<noteq> None)"

section \<open>Key injection: shape of the emitted events\<close>

text \<open>
  C9. Every key edge is written as one \<open>EV_KEY\<close> event immediately followed by one
  \<open>EV_SYN\<close>/\<open>SYN_REPORT\<close> event with value 0, both on the given descriptor;
  \<open>send_key_wakeup\<close> emits exactly a \<open>KEY_WAKEUP\<close> press (value 1) followed by a
  \<open>KEY_WAKEUP\<close> release (value 0); a replayed power press is a \<open>KEY_POWER\<close> press
  edge and a \<open>KEY_POWER\<close> release edge of the same shape (with a two second sleep in
  between when it is a long press).
\<close>

theorem key_injection_shape:
  "emit_key ufd key_code val =
     [UinputWrite ufd \<lparr>tv_sec = 0, tv_usec = 0, ev_type = 1,
                        ev_code = word_of_int key_code, ev_value = word_of_int val\<rparr>,
      UinputWrite ufd \<lparr>tv_sec = 0, tv_usec = 0, ev_type = 0, ev_code = 0, ev_value = 0\<rparr>]
   \<and> send_key_wakeup ufd =
     [UinputWrite ufd \<lparr>tv_sec = 0, tv_usec = 0, ev_type = 1, ev_code = 143, ev_value = 1\<rparr>,
      UinputWrite ufd \<lparr>tv_sec = 0, tv_usec = 0, ev_type = 0, ev_code = 0, ev_value = 0\<rparr>,
      UinputWrite ufd \<lparr>tv_sec = 0, tv_usec = 0, ev_type = 1, ev_code = 143, ev_value = 0\<rparr>,
      UinputWrite ufd \<lparr>tv_sec = 0, tv_usec = 0, ev_type = 0, ev_code = 0, ev_value = 0\<rparr>]
   \<and> send_key_power ufd False =
     [UinputWrite ufd \<lparr>tv_sec = 0, tv_usec = 0, ev_type = 1, ev_code = 116, ev_value = 1\<rparr>,
      UinputWrite ufd \<lparr>tv_sec = 0, tv_usec = 0, ev_type = 0, ev_code = 0, ev_value = 0\<rparr>,
      UinputWrite ufd \<lparr>tv_sec = 0, tv_usec = 0, ev_type = 1, ev_code = 116, ev_value = 0\<rparr>,
      UinputWrite ufd \<lparr>tv_sec = 0, tv_usec = 0, ev_type = 0, ev_code = 0, ev_value = 0\<rparr>]
   \<and> send_key_power ufd True =
     [UinputWrite ufd \<lparr>tv_sec = 0, tv_usec = 0, ev_type = 1, ev_code = 116, ev_value = 1\<rparr>,
      UinputWrite ufd \<lparr>tv_sec = 0, tv_usec = 0, ev_type = 0, ev_code = 0, ev_value = 0\<rparr>,
      Sleep 2,
      UinputWrite ufd \<lparr>tv_sec = 0, tv_usec = 0, ev_type = 1, ev_code = 116, ev_value = 0\<rparr>,
      UinputWrite ufd \<lparr>tv_sec = 0, tv_usec = 0, ev_type = 0, ev_code = 0, ev_value = 0\<rparr>]"
  by (simp add: emit_key_def send_key_wakeup_def send_key_power_def
      EV_KEY_def EV_SYN_def SYN_REPORT_def KEY_WAKEUP_def KEY_POWER_def)

section \<open>Callback registration\<close>

lemma set_wakeup_callbacks_keep:
  "set_wakeup_callbacks fs (Some f) = Some f"
  by (induction fs) (simp_all add: set_wakeup_callback_def)

text \<open>
  C6. \<open>set_wakeup_callback\<close> stores the given callback only when the slot is empty;
  once a callback \<open>f\<close> is registered, every later registration attempt leaves \<open>f\<close> in
  the slot, whatever is passed and however many attempts follow.
\<close>

theorem set_wakeup_callback_once:
  "set_wakeup_callback func None = func
   \<and> set_wakeup_callback func (Some f) = Some f
   \<and> set_wakeup_callbacks (Some f # later) None = Some f"
  by (simp add: set_wakeup_callback_def set_wakeup_callbacks_keep)

section \<open>The power-button monitor: startup scan\<close>

lemma openfds_loop_full:
  "\<not> length pfds < MAX_POWERBTNS \<Longrightarrow> openfds_loop pfds des = (pfds, [])"
  by (cases des) simp_all

lemma openfds_loop_skip:
  "length pfds < MAX_POWERBTNS \<Longrightarrow> \<not> power_button_dev de \<Longrightarrow>
   fst (openfds_loop pfds (de # des)) = fst (openfds_loop pfds des)"
  by (auto simp: power_button_dev_def case_prod_beta split: list.splits)

lemma openfds_loop_keep:
  "length pfds < MAX_POWERBTNS \<Longrightarrow> power_button_dev de \<Longrightarrow>
   fst (openfds_loop pfds (de # des)) = fst (openfds_loop (pfds @ [open_ret de]) des)"
  by (auto simp: power_button_dev_def case_prod_beta split: list.splits)

lemma openfds_loop_kept:
  "length pfds \<le> MAX_POWERBTNS \<Longrightarrow>
   fst (openfds_loop pfds des) =
     pfds @ take (MAX_POWERBTNS - length pfds) (map open_ret (filter power_button_dev des))"
proof (induction des arbitrary: pfds)
  case Nil
  then show ?case by simp
next
  case (Cons de des)
  show ?case
  proof (cases "length pfds < MAX_POWERBTNS")
    case False
    with Cons.prems show ?thesis by (simp add: openfds_loop_full del: openfds_loop.simps)
  next
    case True
    note lt = True
    show ?thesis
    proof (cases "power_button_dev de")
      case False
      with lt Cons.IH [OF Cons.prems] show ?thesis
        by (simp add: openfds_loop_skip del: openfds_loop.simps)
    next
      case True
      from lt have le: "length (pfds @ [open_ret de]) \<le> MAX_POWERBTNS" by simp
      from lt obtain k where k: "MAX_POWERBTNS - length pfds = Suc k"
        by (cases "MAX_POWERBTNS - length pfds") auto
      then have k': "MAX_POWERBTNS - length (pfds @ [open_ret de]) = k" by simp
      from True lt Cons.IH [OF le] k k' show ?thesis
        by (simp add: openfds_loop_keep del: openfds_loop.simps)
    qed
  qed
qed

lemma openfds_loop_table:
  "fd_table tbl (snd (openfds_loop pfds des)) + mset pfds = tbl + mset (fst (openfds_loop pfds des))"
proof (induction des arbitrary: pfds tbl)
  case Nil
  then show ?case by simp
next
  case (Cons de des)
  show ?case
    using Cons.IH [of tbl pfds] Cons.IH [of "add_mset (open_ret de) tbl" "pfds @ [open_ret de]"]
    by (simp add: case_prod_beta split: list.splits)
qed

lemma handle_input_no_open: "filter is_open (snd (handle_input dc ufd st r)) = []"
  by (cases r) (simp_all add: send_key_power_def emit_key_def)

lemma handle_inputs_no_open: "filter is_open (snd (handle_inputs dc ufd st rs)) = []"
  by (induction rs arbitrary: st) (simp_all add: case_prod_beta handle_input_no_open)

lemma powerbtnd_loop_no_open: "filter is_open (snd (powerbtnd_loop dc ufd cnt st ps)) = []"
  by (induction ps arbitrary: st)
     (simp_all add: case_prod_beta handle_inputs_no_open send_key_power_def emit_key_def
        split: poll_result.splits)

lemma powerbtnd_loop_zero: "powerbtnd_loop dc ufd 0 st ps = (st, [])"
  by (cases ps) simp_all

lemma openfds_loop_no_uinput: "filter is_uinput_write (snd (openfds_loop pfds des)) = []"
  by (induction des arbitrary: pfds) (simp_all add: case_prod_beta split: list.splits)

lemma power_button_dev_iff:
  "power_button_dev de \<longleftrightarrow>
     take 1 (d_name de) = ''e'' \<and> 0 \<le> open_ret de \<and> 1 \<le> ioctl_ret de
     \<and> reported_name de = ''Power Button''"
  by (cases "d_name de") (auto simp: power_button_dev_def device_name_def)

lemma power_button_dev_filter:
  "filter power_button_dev des =
     filter (\<lambda>de. take 1 (d_name de) = ''e'' \<and> 0 \<le> open_ret de \<and> 1 \<le> ioctl_ret de
                  \<and> reported_name de = ''Power Button'') des"
  by (rule filter_cong) (simp_all add: power_button_dev_iff)

lemma wakeup_count_backend_dir:
  "ba_ops (wakeup_count_backend env s doubleclick dir polls cycles wakeup_func) =
     fst (autosuspend_wakeup_count_init env s)"
  "ba_engine (wakeup_count_backend env s doubleclick dir polls cycles wakeup_func) =
     snd (autosuspend_wakeup_count_init env s)"
  "ba_suspend (wakeup_count_backend env s doubleclick dir polls cycles wakeup_func) =
     (if fst (autosuspend_wakeup_count_init env s) = None then []
      else suspend_thread_func cycles wakeup_func
             (uinput_fd (snd (autosuspend_wakeup_count_init env s)))
             (sleep_state_buf (snd (autosuspend_wakeup_count_init env s))))"
  by (simp_all add: wakeup_count_backend_def case_prod_beta)

lemma powerbtnd_no_uinput:
  assumes "fst (openfds dir) = []"
  shows "filter is_uinput_write (powerbtnd_thread_func doubleclick ufd dir polls) = []"
proof -
  have "powerbtnd_thread_func doubleclick ufd dir polls = snd (openfds dir)"
    using assms by (simp add: powerbtnd_thread_func_def case_prod_beta powerbtnd_loop_zero)
  moreover have "filter is_uinput_write (snd (openfds dir)) = []"
    by (cases dir) (simp_all add: openfds_def openfds_loop_no_uinput)
  ultimately show ?thesis by simp
qed

text \<open>
  C8. The scan keeps the descriptors of the first three entries whose name starts with
  \<open>e\<close>, that open, and for which the name ioctl succeeds and reports \<open>Power Button\<close>,
  never more than three; a device that opens and reports another name, or none, is
  closed right after its open, while a matching one is stored and stays open, so the
  descriptors left open by the scan are exactly the ones kept; the monitor loop opens
  nothing, so the thread enumerates only once. With zero matches the thread does nothing
  beyond the scan and writes no event to the uinput device, and the rest of the backend
  is as with any other directory and any other events: the initialization returns the
  same pointer and leaves the same variables, the suspend thread does the same, and
  \<open>enable\<close> and \<open>disable\<close> act on the same engine.
\<close>

theorem power_button_scan:
  "fst (openfds (Some des)) =
     take 3 (map open_ret
       (filter (\<lambda>de. take 1 (d_name de) = ''e'' \<and> 0 \<le> open_ret de \<and> 1 \<le> ioctl_ret de
                     \<and> reported_name de = ''Power Button'') des))
   \<and> fst (openfds None) = []
   \<and> length (fst (openfds dir)) \<le> 3
   \<and> (length pfds < 3 \<and> d_name de = CHR ''e'' # nm \<and> 0 \<le> open_ret de
        \<and> (ioctl_ret de < 1 \<or> reported_name de \<noteq> ''Power Button'') \<longrightarrow>
      openfds_loop pfds (de # des) =
        (fst (openfds_loop pfds des),
         OpenFd (''/dev/input/'' @ d_name de) (open_ret de) # CloseFd (open_ret de)
           # snd (openfds_loop pfds des)))
   \<and> (length pfds < 3 \<and> d_name de = CHR ''e'' # nm \<and> 0 \<le> open_ret de
        \<and> 1 \<le> ioctl_ret de \<and> reported_name de = ''Power Button'' \<longrightarrow>
      openfds_loop pfds (de # des) =
        (fst (openfds_loop (pfds @ [open_ret de]) des),
         OpenFd (''/dev/input/'' @ d_name de) (open_ret de)
           # snd (openfds_loop (pfds @ [open_ret de]) des)))
   \<and> fd_table {#} (snd (openfds dir)) = mset (fst (openfds dir))
   \<and> filter is_open (powerbtnd_thread_func doubleclick ufd dir polls) =
       filter is_open (snd (openfds dir))
   \<and> (fst (openfds dir) = [] \<longrightarrow>
       powerbtnd_thread_func doubleclick ufd dir polls = snd (openfds dir)
       \<and> filter is_uinput_write (powerbtnd_thread_func doubleclick ufd dir polls) = []
       \<and> filter is_uinput_write
           (ba_powerbtnd (wakeup_count_backend env s doubleclick dir polls cycles wakeup_func)) = []
       \<and> ba_ops (wakeup_count_backend env s doubleclick dir polls cycles wakeup_func) =
           ba_ops (wakeup_count_backend env s doubleclick' dir' polls' cycles wakeup_func)
       \<and> ba_engine (wakeup_count_backend env s doubleclick dir polls cycles wakeup_func) =
           ba_engine (wakeup_count_backend env s doubleclick' dir' polls' cycles wakeup_func)
       \<and> ba_suspend (wakeup_count_backend env s doubleclick dir polls cycles wakeup_func) =
           ba_suspend (wakeup_count_backend env s doubleclick' dir' polls' cycles wakeup_func)
       \<and> ops_enable Wakeup_count_ops env'
           (ba_engine (wakeup_count_backend env s doubleclick dir polls cycles wakeup_func)) =
          autosuspend_wakeup_count_enable env' (snd (autosuspend_wakeup_count_init env s))
       \<and> ops_disable Wakeup_count_ops env'
           (ba_engine (wakeup_count_backend env s doubleclick dir polls cycles wakeup_func)) =
          autosuspend_wakeup_count_disable env' (snd (autosuspend_wakeup_count_init env s)))"
proof (intro conjI impI)
  show "fst (openfds (Some des)) =
     take 3 (map open_ret
       (filter (\<lambda>de. take 1 (d_name de) = ''e'' \<and> 0 \<le> open_ret de \<and> 1 \<le> ioctl_ret de
                     \<and> reported_name de = ''Power Button'') des))"
    using openfds_loop_kept [of "[]" des]
    by (simp add: openfds_def MAX_POWERBTNS_def power_button_dev_filter)
  show "fst (openfds None) = []"
    by (simp add: openfds_def)
  show "length (fst (openfds dir)) \<le> 3"
    using openfds_loop_kept [of "[]"]
    by (cases dir) (simp_all add: openfds_def MAX_POWERBTNS_def)
  show "fd_table {#} (snd (openfds dir)) = mset (fst (openfds dir))"
    using openfds_loop_table [of "{#}" "[]"]
    by (cases dir) (simp_all add: openfds_def)
  show "filter is_open (powerbtnd_thread_func doubleclick ufd dir polls) =
       filter is_open (snd (openfds dir))"
    by (simp add: powerbtnd_thread_func_def case_prod_beta powerbtnd_loop_no_open)
next
  assume "length pfds < 3 \<and> d_name de = CHR ''e'' # nm \<and> 0 \<le> open_ret de
        \<and> (ioctl_ret de < 1 \<or> reported_name de \<noteq> ''Power Button'')"
  then show "openfds_loop pfds (de # des) =
        (fst (openfds_loop pfds des),
         OpenFd (''/dev/input/'' @ d_name de) (open_ret de) # CloseFd (open_ret de)
           # snd (openfds_loop pfds des))"
    by (auto simp: MAX_POWERBTNS_def case_prod_beta device_name_def)
next
  assume "length pfds < 3 \<and> d_name de = CHR ''e'' # nm \<and> 0 \<le> open_ret de
        \<and> 1 \<le> ioctl_ret de \<and> reported_name de = ''Power Button''"
  then show "openfds_loop pfds (de # des) =
        (fst (openfds_loop (pfds @ [open_ret de]) des),
         OpenFd (''/dev/input/'' @ d_name de) (open_ret de)
           # snd (openfds_loop (pfds @ [open_ret de]) des))"
    by (auto simp: MAX_POWERBTNS_def case_prod_beta device_name_def)
next
  assume none: "fst (openfds dir) = []"
  then show "powerbtnd_thread_func doubleclick ufd dir polls = snd (openfds dir)"
    by (simp add: powerbtnd_thread_func_def case_prod_beta powerbtnd_loop_zero)
  from none show "filter is_uinput_write (powerbtnd_thread_func doubleclick ufd dir polls) = []"
    by (rule powerbtnd_no_uinput)
  from none show "filter is_uinput_write
           (ba_powerbtnd (wakeup_count_backend env s doubleclick dir polls cycles wakeup_func)) = []"
    by (simp add: wakeup_count_backend_def case_prod_beta powerbtnd_no_uinput)
  show "ba_ops (wakeup_count_backend env s doubleclick dir polls cycles wakeup_func) =
           ba_ops (wakeup_count_backend env s doubleclick' dir' polls' cycles wakeup_func)"
    by (simp add: wakeup_count_backend_dir)
  show "ba_engine (wakeup_count_backend env s doubleclick dir polls cycles wakeup_func) =
           ba_engine (wakeup_count_backend env s doubleclick' dir' polls' cycles wakeup_func)"
    by (simp add: wakeup_count_backend_dir)
  show "ba_suspend (wakeup_count_backend env s doubleclick dir polls cycles wakeup_func) =
           ba_suspend (wakeup_count_backend env s doubleclick' dir' polls' cycles wakeup_func)"
    by (simp add: wakeup_count_backend_dir)
  show "ops_enable Wakeup_count_ops env'
           (ba_engine (wakeup_count_backend env s doubleclick dir polls cycles wakeup_func)) =
          autosuspend_wakeup_count_enable env' (snd (autosuspend_wakeup_count_init env s))"
    by (simp add: wakeup_count_backend_dir)
  show "ops_disable Wakeup_count_ops env'
           (ba_engine (wakeup_count_backend env s doubleclick dir polls cycles wakeup_func)) =
          autosuspend_wakeup_count_disable env' (snd (autosuspend_wakeup_count_init env s))"
    by (simp add: wakeup_count_backend_dir)
qed

theorem power_button_scan_witness:
  "openfds (Some [\<lparr>d_name = ''event0'', open_ret = 5, ioctl_ret = 9, reported_name = ''Keyboard''\<rparr>,
                  \<lparr>d_name = ''event1'', open_ret = 6, ioctl_ret = 13,
                    reported_name = ''Power Button''\<rparr>]) =
     ([6], [OpenFd ''/dev/input/event0'' 5, CloseFd 5, OpenFd ''/dev/input/event1'' 6])
   \<and> openfds (Some [\<lparr>d_name = ''event0'', open_ret = 5, ioctl_ret = 9,
                    reported_name = ''Keyboard''\<rparr>]) =
     ([], [OpenFd ''/dev/input/event0'' 5, CloseFd 5])
   \<and> powerbtnd_thread_func True 3
        (Some [\<lparr>d_name = ''event0'', open_ret = 5, ioctl_ret = 9, reported_name = ''Keyboard''\<rparr>])
        [PollTimeout] =
      [OpenFd ''/dev/input/event0'' 5, CloseFd 5]
   \<and> ba_suspend (wakeup_count_backend env0 engine0 True
        (Some [\<lparr>d_name = ''event0'', open_ret = 5, ioctl_ret = 9, reported_name = ''Keyboard''\<rparr>])
        [PollTimeout]
        [(env0, \<lparr>wakeup_count_len = 2, wakeup_count = ''42'', wait_ret = 0, commit_ret = 0,
                  state_ret = 4, post_ret = 0\<rparr>)] (Some 1)) =
      ba_suspend (wakeup_count_backend env0 engine0 False
        (Some [\<lparr>d_name = ''event1'', open_ret = 6, ioctl_ret = 13,
                 reported_name = ''Power Button''\<rparr>])
        [PollReady [InputEvent \<lparr>tv_sec = 0, tv_usec = 0, ev_type = 1, ev_code = 116,
                                  ev_value = 0\<rparr>]]
        [(env0, \<lparr>wakeup_count_len = 2, wakeup_count = ''42'', wait_ret = 0, commit_ret = 0,
                  state_ret = 4, post_ret = 0\<rparr>)] (Some 1))"
proof -
  let ?kb = "\<lparr>d_name = ''event0'', open_ret = 5, ioctl_ret = 9, reported_name = ''Keyboard''\<rparr>"
  let ?pb = "\<lparr>d_name = ''event1'', open_ret = 6, ioctl_ret = 13,
              reported_name = ''Power Button''\<rparr>"
  let ?cy = "[(env0, \<lparr>wakeup_count_len = 2, wakeup_count = ''42'', wait_ret = 0, commit_ret = 0,
                  state_ret = 4, post_ret = 0\<rparr>)]"
  let ?rel = "\<lparr>tv_sec = 0, tv_usec = 0, ev_type = 1, ev_code = 116, ev_value = 0\<rparr> :: input_event"
  have hkb: "length ([] :: int list) < 3 \<and> d_name ?kb = CHR ''e'' # ''vent0'' \<and> 0 \<le> open_ret ?kb
      \<and> (ioctl_ret ?kb < 1 \<or> reported_name ?kb \<noteq> ''Power Button'')"
    by simp
  have hpb: "length ([] :: int list) < 3 \<and> d_name ?pb = CHR ''e'' # ''vent1'' \<and> 0 \<le> open_ret ?pb
      \<and> 1 \<le> ioctl_ret ?pb \<and> reported_name ?pb = ''Power Button''"
    by simp
  from power_button_scan [of "[]" "Some [?kb]" "[]" ?pb "''vent1''"] hpb
  have one: "openfds_loop [] [?pb] = ([6], [OpenFd ''/dev/input/event1'' 6])"
    by simp
  from power_button_scan [of "[?pb]" "Some [?kb]" "[]" ?kb "''vent0''"] hkb
  have "openfds_loop [] (?kb # [?pb]) =
      (fst (openfds_loop [] [?pb]),
       OpenFd (''/dev/input/'' @ d_name ?kb) (open_ret ?kb) # CloseFd (open_ret ?kb)
         # snd (openfds_loop [] [?pb]))"
    by blast
  with one have two: "openfds (Some [?kb, ?pb]) =
      ([6], [OpenFd ''/dev/input/event0'' 5, CloseFd 5, OpenFd ''/dev/input/event1'' 6])"
    by (simp add: openfds_def)
  from power_button_scan [of "[]" "Some [?kb]" "[]" ?kb "''vent0''"] hkb
  have "openfds_loop [] (?kb # []) =
      (fst (openfds_loop [] []),
       OpenFd (''/dev/input/'' @ d_name ?kb) (open_ret ?kb) # CloseFd (open_ret ?kb)
         # snd (openfds_loop [] []))"
    by blast
  then have scan: "openfds (Some [?kb]) = ([], [OpenFd ''/dev/input/event0'' 5, CloseFd 5])"
    by (simp add: openfds_def)
  then have none: "fst (openfds (Some [?kb])) = []"
    by simp
  note inst = power_button_scan [of "[]" "Some [?kb]" "[]" ?kb "''vent0''" True 3 "[PollTimeout]"
      env0 engine0 ?cy "Some 1" False "Some [?pb]" "[PollReady [InputEvent ?rel]]" env0]
  from inst none
  have thr: "powerbtnd_thread_func True 3 (Some [?kb]) [PollTimeout] = snd (openfds (Some [?kb]))"
    by blast
  from inst none
  have same: "ba_suspend (wakeup_count_backend env0 engine0 True (Some [?kb]) [PollTimeout]
        ?cy (Some 1)) =
      ba_suspend (wakeup_count_backend env0 engine0 False (Some [?pb])
        [PollReady [InputEvent ?rel]] ?cy (Some 1))"
    by blast
  from two scan thr same show ?thesis by simp
qed

section \<open>The power-button monitor: release handling\<close>

lemma is_power_release_not_resume: "is_power_release iev \<Longrightarrow> \<not> is_resume iev"
  by (simp add: is_power_release_def is_resume_def EV_KEY_def EV_SYN_def)

lemma release_resume_sequences:
  assumes "is_power_release iev" and "is_resume res" and "0 < cnt" and "\<not> timeout st > 0"
  shows "powerbtnd_loop True ufd cnt st
           [PollReady [InputEvent iev], PollReady [InputEvent res], PollTimeout] =
           (\<lparr>timeout = -1, longpress = True\<rparr>, send_key_power ufd False)
         \<and> powerbtnd_loop True ufd cnt st
           [PollReady [InputEvent iev], PollReady [InputEvent res], PollReady [InputEvent iev]] =
           (\<lparr>timeout = -1, longpress = False\<rparr>, send_key_power ufd False)"
proof -
  from assms obtain k where k: "cnt = Suc k" by (cases cnt) auto
  from assms have nr: "\<not> is_power_release res"
    using is_power_release_not_resume by blast
  from assms nr k show ?thesis by simp
qed

lemma handle_input_flag:
  "no_failed_read r \<Longrightarrow>
   longpress (fst (handle_input doubleclick ufd st r)) = (longpress st \<and> \<not> resume_input r)"
  by (cases r) (auto simp: is_power_release_def is_resume_def EV_KEY_def EV_SYN_def)

lemma handle_inputs_flag:
  "list_all no_failed_read rs \<Longrightarrow>
   longpress (fst (handle_inputs doubleclick ufd st rs)) =
     (longpress st \<and> \<not> list_ex resume_input rs)"
proof (induction rs arbitrary: st)
  case Nil
  then show ?case by simp
next
  case (Cons r rs)
  then have r: "no_failed_read r" and rs: "list_all no_failed_read rs" by simp_all
  from handle_input_flag [OF r, of doubleclick ufd st]
    Cons.IH [OF rs, of "fst (handle_input doubleclick ufd st r)"]
  show ?case by (auto simp: case_prod_beta simp del: handle_input.simps)
qed

lemma list_all_take: "list_all P xs \<Longrightarrow> list_all P (take n xs)"
  by (auto simp: list_all_iff dest: in_set_takeD)

lemma list_ex_take: "list_ex P (take n xs) \<Longrightarrow> list_ex P xs"
  by (auto simp: list_ex_iff dest: in_set_takeD)

lemma powerbtnd_loop_flag_set:
  "list_all no_failed_reads ps \<Longrightarrow> \<not> longpress st \<Longrightarrow> PollTimeout \<notin> set ps \<Longrightarrow>
   \<not> longpress (fst (powerbtnd_loop doubleclick ufd cnt st ps))"
proof (induction ps arbitrary: st)
  case Nil
  then show ?case by simp
next
  case (Cons p ps)
  show ?case
  proof (cases p)
    case PollError
    with Cons.prems show ?thesis by simp
  next
    case PollTimeout
    with Cons.prems show ?thesis by simp
  next
    case (PollReady rs)
    with Cons.prems have ok: "list_all no_failed_read (take cnt rs)"
      by (simp add: list_all_take)
    let ?st1 = "fst (handle_inputs doubleclick ufd st (take cnt rs))"
    from handle_inputs_flag [OF ok, of doubleclick ufd st] Cons.prems(2)
    have "\<not> longpress ?st1" by simp
    from Cons.IH [OF _ this] Cons.prems have "\<not> longpress (fst (powerbtnd_loop doubleclick ufd cnt ?st1 ps))"
      by simp
    with PollReady Cons.prems(2) show ?thesis
      by (simp add: case_prod_beta)
  qed
qed

lemma powerbtnd_loop_flag_cleared:
  "list_all no_failed_reads ps \<Longrightarrow> longpress st \<Longrightarrow> \<not> list_ex has_resume ps \<Longrightarrow>
   longpress (fst (powerbtnd_loop doubleclick ufd cnt st ps))"
proof (induction ps arbitrary: st)
  case Nil
  then show ?case by simp
next
  case (Cons p ps)
  show ?case
  proof (cases p)
    case PollError
    with Cons.prems show ?thesis by simp
  next
    case PollTimeout
    with Cons.prems Cons.IH [of "st\<lparr>timeout := -1, longpress := True\<rparr>"] show ?thesis
      by (simp add: case_prod_beta)
  next
    case (PollReady rs)
    with Cons.prems have ok: "list_all no_failed_read (take cnt rs)"
      by (simp add: list_all_take)
    from PollReady Cons.prems have nores: "\<not> list_ex resume_input (take cnt rs)"
      using list_ex_take [of resume_input cnt rs] by auto
    let ?st1 = "fst (handle_inputs doubleclick ufd st (take cnt rs))"
    from handle_inputs_flag [OF ok, of doubleclick ufd st] Cons.prems(2) nores
    have "longpress ?st1" by simp
    from Cons.IH [OF _ this] Cons.prems have "longpress (fst (powerbtnd_loop doubleclick ufd cnt ?st1 ps))"
      by simp
    with PollReady Cons.prems(2) show ?thesis
      by (simp add: case_prod_beta)
  qed
qed

lemma failed_read_handled:
  "handle_input doubleclick ufd st (FailedRead iev) =
     handle_input doubleclick ufd st (InputEvent iev)"
  by simp

text \<open>
  C7 (as amended). For the events the monitor reads in full: on a power-key release, if
  double-click mode is off or a window is pending, it at once synthesizes one power key
  press honouring the long-press flag, clears the window and leaves the flag as it was;
  if double-click mode is on with no window pending it arms a 1000 ms window and
  synthesizes nothing; a resume event clears the flag and arms a window; any other
  event, a descriptor without input and a short read change nothing. When a pending
  window's poll times out the monitor synthesizes exactly one short press, clears the
  window and sets the flag. So, as long as no read fails, event handling clears the flag
  exactly when a resume event is among the events and never sets it: over any run of
  polls the flag stays clear unless a poll times out, and stays set unless a resume event
  is read. In double-click mode with no window pending, a release followed by a resume
  event synthesizes nothing by itself, and the press that follows (on the window's
  timeout, or on the next release) is a short one.
\<close>

theorem power_release_handling:
  "(is_power_release iev \<longrightarrow>
      handle_input doubleclick ufd st (InputEvent iev) =
        (if \<not> doubleclick \<or> timeout st > 0
         then (st\<lparr>timeout := -1\<rparr>, send_key_power ufd (longpress st))
         else (st\<lparr>timeout := 1000\<rparr>, [])))
   \<and> (is_resume iev \<longrightarrow>
      handle_input doubleclick ufd st (InputEvent iev) =
        (st\<lparr>longpress := False, timeout := 1000\<rparr>, []))
   \<and> (\<not> is_power_release iev \<and> \<not> is_resume iev \<longrightarrow>
      handle_input doubleclick ufd st (InputEvent iev) = (st, []))
   \<and> handle_input doubleclick ufd st NoInput = (st, [])
   \<and> handle_input doubleclick ufd st ShortRead = (st, [])
   \<and> (0 < cnt \<and> 0 \<le> timeout st \<longrightarrow>
      powerbtnd_loop doubleclick ufd cnt st [PollTimeout] =
        (\<lparr>timeout = -1, longpress = True\<rparr>, send_key_power ufd False))
   \<and> (list_all no_failed_read rs \<longrightarrow>
      longpress (fst (handle_inputs doubleclick ufd st rs)) =
        (longpress st \<and> \<not> list_ex resume_input rs))
   \<and> (list_all no_failed_reads ps \<and> \<not> longpress st \<and> PollTimeout \<notin> set ps \<longrightarrow>
      \<not> longpress (fst (powerbtnd_loop doubleclick ufd cnt st ps)))
   \<and> (list_all no_failed_reads ps \<and> longpress st \<and> \<not> list_ex has_resume ps \<longrightarrow>
      longpress (fst (powerbtnd_loop doubleclick ufd cnt st ps)))
   \<and> (is_power_release iev \<and> is_resume res \<and> 0 < cnt \<and> \<not> timeout st > 0 \<longrightarrow>
      powerbtnd_loop True ufd cnt st
        [PollReady [InputEvent iev], PollReady [InputEvent res], PollTimeout] =
        (\<lparr>timeout = -1, longpress = True\<rparr>, send_key_power ufd False)
      \<and> powerbtnd_loop True ufd cnt st
        [PollReady [InputEvent iev], PollReady [InputEvent res], PollReady [InputEvent iev]] =
        (\<lparr>timeout = -1, longpress = False\<rparr>, send_key_power ufd False))"
proof (intro conjI impI)
  show "handle_input doubleclick ufd st (InputEvent iev) =
        (if \<not> doubleclick \<or> timeout st > 0
         then (st\<lparr>timeout := -1\<rparr>, send_key_power ufd (longpress st))
         else (st\<lparr>timeout := 1000\<rparr>, []))" if "is_power_release iev"
    using that by simp
  show "handle_input doubleclick ufd st (InputEvent iev) =
        (st\<lparr>longpress := False, timeout := 1000\<rparr>, [])" if "is_resume iev"
    using that is_power_release_not_resume [of iev] by auto
  show "handle_input doubleclick ufd st (InputEvent iev) = (st, [])"
    if "\<not> is_power_release iev \<and> \<not> is_resume iev"
    using that by simp
  show "handle_input doubleclick ufd st NoInput = (st, [])"
    by simp
  show "handle_input doubleclick ufd st ShortRead = (st, [])"
    by simp
  show "powerbtnd_loop doubleclick ufd cnt st [PollTimeout] =
        (\<lparr>timeout = -1, longpress = True\<rparr>, send_key_power ufd False)"
    if "0 < cnt \<and> 0 \<le> timeout st"
    using that by simp
  show "longpress (fst (handle_inputs doubleclick ufd st rs)) =
        (longpress st \<and> \<not> list_ex resume_input rs)" if "list_all no_failed_read rs"
    using that by (rule handle_inputs_flag)
  show "\<not> longpress (fst (powerbtnd_loop doubleclick ufd cnt st ps))"
    if "list_all no_failed_reads ps \<and> \<not> longpress st \<and> PollTimeout \<notin> set ps"
    using that powerbtnd_loop_flag_set [of ps st doubleclick ufd cnt] by blast
  show "longpress (fst (powerbtnd_loop doubleclick ufd cnt st ps))"
    if "list_all no_failed_reads ps \<and> longpress st \<and> \<not> list_ex has_resume ps"
    using that powerbtnd_loop_flag_cleared [of ps st doubleclick ufd cnt] by blast
next
  assume a: "is_power_release iev \<and> is_resume res \<and> 0 < cnt \<and> \<not> timeout st > 0"
  with release_resume_sequences [of iev res cnt st ufd]
  show "powerbtnd_loop True ufd cnt st
        [PollReady [InputEvent iev], PollReady [InputEvent res], PollTimeout] =
        (\<lparr>timeout = -1, longpress = True\<rparr>, send_key_power ufd False)"
    and "powerbtnd_loop True ufd cnt st
        [PollReady [InputEvent iev], PollReady [InputEvent res], PollReady [InputEvent iev]] =
        (\<lparr>timeout = -1, longpress = False\<rparr>, send_key_power ufd False)"
    by simp_all
qed

theorem power_release_handling_witness:
  "is_power_release \<lparr>tv_sec = 7, tv_usec = 0, ev_type = 1, ev_code = 116, ev_value = 0\<rparr>
   \<and> is_resume \<lparr>tv_sec = 7, tv_usec = 5, ev_type = 0, ev_code = 0, ev_value = 1\<rparr>
   \<and> handle_input False 3 \<lparr>timeout = -1, longpress = True\<rparr>
        (InputEvent \<lparr>tv_sec = 7, tv_usec = 0, ev_type = 1, ev_code = 116, ev_value = 0\<rparr>) =
        (\<lparr>timeout = -1, longpress = True\<rparr>, send_key_power 3 True)
   \<and> handle_input False 3 \<lparr>timeout = -1, longpress = True\<rparr>
        (InputEvent \<lparr>tv_sec = 7, tv_usec = 5, ev_type = 0, ev_code = 0, ev_value = 1\<rparr>) =
        (\<lparr>timeout = 1000, longpress = False\<rparr>, [])
   \<and> handle_input False 3 \<lparr>timeout = -1, longpress = True\<rparr>
        (InputEvent \<lparr>tv_sec = 7, tv_usec = 5, ev_type = 1, ev_code = 116, ev_value = 1\<rparr>) =
        (\<lparr>timeout = -1, longpress = True\<rparr>, [])
   \<and> powerbtnd_loop True 3 1 \<lparr>timeout = -1, longpress = True\<rparr>
        [PollReady [InputEvent \<lparr>tv_sec = 7, tv_usec = 0, ev_type = 1, ev_code = 116, ev_value = 0\<rparr>],
         PollReady [InputEvent \<lparr>tv_sec = 7, tv_usec = 5, ev_type = 0, ev_code = 0, ev_value = 1\<rparr>],
         PollTimeout] =
        (\<lparr>timeout = -1, longpress = True\<rparr>, send_key_power 3 False)
   \<and> powerbtnd_loop True 3 1 \<lparr>timeout = 1000, longpress = False\<rparr> [PollTimeout] =
        (\<lparr>timeout = -1, longpress = True\<rparr>, send_key_power 3 False)
   \<and> \<not> longpress (fst (handle_inputs True 3 \<lparr>timeout = -1, longpress = True\<rparr>
        [NoInput, InputEvent \<lparr>tv_sec = 7, tv_usec = 5, ev_type = 0, ev_code = 0, ev_value = 1\<rparr>]))
   \<and> \<not> longpress (fst (powerbtnd_loop False 3 1 \<lparr>timeout = -1, longpress = False\<rparr>
        [PollReady [InputEvent \<lparr>tv_sec = 7, tv_usec = 0, ev_type = 1, ev_code = 116, ev_value = 0\<rparr>]]))
   \<and> longpress (fst (powerbtnd_loop False 3 1 \<lparr>timeout = -1, longpress = True\<rparr>
        [PollReady [InputEvent \<lparr>tv_sec = 7, tv_usec = 0, ev_type = 1, ev_code = 116, ev_value = 0\<rparr>]]))"
proof -
  let ?rel = "\<lparr>tv_sec = 7, tv_usec = 0, ev_type = 1, ev_code = 116, ev_value = 0\<rparr> :: input_event"
  let ?res = "\<lparr>tv_sec = 7, tv_usec = 5, ev_type = 0, ev_code = 0, ev_value = 1\<rparr> :: input_event"
  let ?prs = "\<lparr>tv_sec = 7, tv_usec = 5, ev_type = 1, ev_code = 116, ev_value = 1\<rparr> :: input_event"
  let ?on = "\<lparr>timeout = -1, longpress = True\<rparr>"
  let ?off = "\<lparr>timeout = -1, longpress = False\<rparr>"
  have h1: "is_power_release ?rel"
    by (simp add: is_power_release_def EV_KEY_def KEY_POWER_def)
  have h2: "is_resume ?res"
    by (simp add: is_resume_def EV_SYN_def SYN_REPORT_def)
  have h3: "\<not> is_power_release ?prs \<and> \<not> is_resume ?prs"
    by (simp add: is_power_release_def is_resume_def EV_SYN_def EV_KEY_def)
  have h4: "list_all no_failed_read [NoInput, InputEvent ?res]"
    and h5: "list_ex resume_input [NoInput, InputEvent ?res]"
    using h2 by simp_all
  have h6: "list_all no_failed_reads [PollReady [InputEvent ?rel]]"
    and h7: "PollTimeout \<notin> set [PollReady [InputEvent ?rel]]"
    and h8: "\<not> list_ex has_resume [PollReady [InputEvent ?rel]]"
    using h1 is_power_release_not_resume [of ?rel] by simp_all
  from power_release_handling [of ?rel False 3 ?on 1 "[]" "[]" ?res] h1 h2
  have a: "handle_input False 3 ?on (InputEvent ?rel) = (?on, send_key_power 3 True)"
    by simp
  from power_release_handling [of ?rel True 3 ?on 1 "[]" "[]" ?res] h1 h2
  have b: "powerbtnd_loop True 3 1 ?on
        [PollReady [InputEvent ?rel], PollReady [InputEvent ?res], PollTimeout] =
        (?on, send_key_power 3 False)"
    by simp
  from power_release_handling [of ?res False 3 ?on 1 "[NoInput, InputEvent ?res]" "[]" ?res] h2 h4 h5
  have c: "handle_input False 3 ?on (InputEvent ?res) = (\<lparr>timeout = 1000, longpress = False\<rparr>, [])"
    by simp
  from power_release_handling [of ?prs False 3 ?on 1 "[]" "[]" ?res] h3
  have d: "handle_input False 3 ?on (InputEvent ?prs) = (?on, [])"
    by blast
  have w: "(0::nat) < 1 \<and> 0 \<le> timeout \<lparr>timeout = 1000, longpress = False\<rparr>"
    by simp
  from power_release_handling [of ?rel True 3 "\<lparr>timeout = 1000, longpress = False\<rparr>" 1 "[]" "[]" ?res] w
  have e: "powerbtnd_loop True 3 1 \<lparr>timeout = 1000, longpress = False\<rparr> [PollTimeout] =
        (?on, send_key_power 3 False)"
    by blast
  from power_release_handling [of ?rel True 3 ?on 1 "[NoInput, InputEvent ?res]" "[]" ?res] h4 h5
  have f: "\<not> longpress (fst (handle_inputs True 3 ?on [NoInput, InputEvent ?res]))"
    by blast
  have off: "\<not> longpress ?off" and on: "longpress ?on" by simp_all
  from power_release_handling [of ?rel False 3 ?off 1 "[]" "[PollReady [InputEvent ?rel]]" ?res]
    h6 h7 off
  have g: "\<not> longpress (fst (powerbtnd_loop False 3 1 ?off [PollReady [InputEvent ?rel]]))"
    by blast
  from power_release_handling [of ?rel False 3 ?on 1 "[]" "[PollReady [InputEvent ?rel]]" ?res]
    h6 h8 on
  have h: "longpress (fst (powerbtnd_loop False 3 1 ?on [PollReady [InputEvent ?rel]]))"
    by blast
  from h1 h2 a b c d e f g h show ?thesis by blast
qed

text \<open>
  C7 as stated fails: with double-click mode off and the long-press flag set, a release
  synthesizes a long press and the flag stays set, also after a second release; and a
  release followed by a resume event and the window's timeout has then synthesized a
  long press before the short one.
\<close>

theorem power_release_flag_counterexample:
  "handle_input False 3 \<lparr>timeout = -1, longpress = True\<rparr>
     (InputEvent \<lparr>tv_sec = 0, tv_usec = 0, ev_type = 1, ev_code = 116, ev_value = 0\<rparr>) =
     (\<lparr>timeout = -1, longpress = True\<rparr>, send_key_power 3 True)
   \<and> fst (powerbtnd_loop False 3 1 \<lparr>timeout = -1, longpress = True\<rparr>
        [PollReady [InputEvent \<lparr>tv_sec = 0, tv_usec = 0, ev_type = 1, ev_code = 116, ev_value = 0\<rparr>],
         PollReady [InputEvent \<lparr>tv_sec = 0, tv_usec = 0, ev_type = 1, ev_code = 116, ev_value = 0\<rparr>]]) =
       \<lparr>timeout = -1, longpress = True\<rparr>
   \<and> snd (powerbtnd_loop False 3 1 \<lparr>timeout = -1, longpress = True\<rparr>
        [PollReady [InputEvent \<lparr>tv_sec = 0, tv_usec = 0, ev_type = 1, ev_code = 116, ev_value = 0\<rparr>],
         PollReady [InputEvent \<lparr>tv_sec = 0, tv_usec = 0, ev_type = 0, ev_code = 0, ev_value = 1\<rparr>],
         PollTimeout]) =
       send_key_power 3 True @ send_key_power 3 False"
  by (simp add: is_power_release_def is_resume_def EV_KEY_def KEY_POWER_def EV_SYN_def SYN_REPORT_def)

section \<open>The sleep state is resolved once\<close>

lemma get_sleep_state_nonempty: "get_sleep_state env sleep_state = [] \<longleftrightarrow> False"
  by (auto simp: get_sleep_state_def default_sleep_state_def fallback_sleep_state_def)

lemma get_sleep_states_cached:
  "sleep_state \<noteq> [] \<Longrightarrow> get_sleep_states envs sleep_state = replicate (length envs) sleep_state"
  by (induction envs) (simp_all add: get_sleep_state_def)

text \<open>
  C4. The first call of \<open>get_sleep_state\<close> (empty buffer) resolves the string with the
  precedence: the override property when it is set, else \<open>mem\<close> when the kernel's list
  of states contains it, else \<open>freeze\<close>; the resolved string is never empty, a call with
  a non-empty buffer returns the buffer whatever the environment, and so every later
  call returns what the first call resolved, however the property changes.
\<close>

theorem sleep_state_resolved_once:
  "get_sleep_state env [] =
     (if prop_sleep_state env \<noteq> [] then prop_sleep_state env
      else if (case power_state_ro env of None \<Rightarrow> False | Some buf \<Rightarrow> strstr buf ''mem'')
      then ''mem'' else ''freeze'')
   \<and> get_sleep_state env [] \<noteq> []
   \<and> (sleep_state \<noteq> [] \<longrightarrow> get_sleep_state env' sleep_state = sleep_state)
   \<and> get_sleep_states (env # later) [] =
       replicate (Suc (length later)) (get_sleep_state env [])"
proof (intro conjI impI)
  show "get_sleep_state env [] =
     (if prop_sleep_state env \<noteq> [] then prop_sleep_state env
      else if (case power_state_ro env of None \<Rightarrow> False | Some buf \<Rightarrow> strstr buf ''mem'')
      then ''mem'' else ''freeze'')"
    by (simp add: get_sleep_state_def sleep_state_available_def default_sleep_state_def
        fallback_sleep_state_def)
  show ne: "get_sleep_state env [] \<noteq> []"
    by (simp add: get_sleep_state_nonempty)
  show "get_sleep_state env' sleep_state = sleep_state" if "sleep_state \<noteq> []"
    using that by (simp add: get_sleep_state_def)
  show "get_sleep_states (env # later) [] =
       replicate (Suc (length later)) (get_sleep_state env [])"
    using ne by (simp add: get_sleep_states_cached)
qed

theorem sleep_state_resolved_once_witness:
  "get_sleep_states [env0, env0\<lparr>prop_sleep_state := []\<rparr>, env0\<lparr>prop_sleep_state := ''disk''\<rparr>] [] =
     [''freeze'', ''freeze'', ''freeze'']
   \<and> get_sleep_state (env0\<lparr>prop_sleep_state := []\<rparr>) ''freeze'' = ''freeze''"
proof -
  note inst = sleep_state_resolved_once
    [of env0 "''freeze''" "env0\<lparr>prop_sleep_state := []\<rparr>"
        "[env0\<lparr>prop_sleep_state := []\<rparr>, env0\<lparr>prop_sleep_state := ''disk''\<rparr>]"]
  have first: "get_sleep_state env0 [] = ''freeze''"
    by (simp add: get_sleep_state_def env0_def)
  have ne: "''freeze'' \<noteq> ([] :: string)" by simp
  from inst have "get_sleep_states
      [env0, env0\<lparr>prop_sleep_state := []\<rparr>, env0\<lparr>prop_sleep_state := ''disk''\<rparr>] [] =
      replicate (Suc (length [env0\<lparr>prop_sleep_state := []\<rparr>, env0\<lparr>prop_sleep_state := ''disk''\<rparr>]))
        (get_sleep_state env0 [])"
    by blast
  with first have a: "get_sleep_states
      [env0, env0\<lparr>prop_sleep_state := []\<rparr>, env0\<lparr>prop_sleep_state := ''disk''\<rparr>] [] =
      [''freeze'', ''freeze'', ''freeze'']"
    by (simp del: get_sleep_states.simps)
  from inst ne have b: "get_sleep_state (env0\<lparr>prop_sleep_state := []\<rparr>) ''freeze'' = ''freeze''"
    by blast
  from a b show ?thesis by blast
qed

section \<open>A rejected commit\<close>

lemma filter_callback_wakeup [simp]: "filter is_callback (send_key_wakeup ufd) = []"
  by (simp add: send_key_wakeup_def emit_key_def)

lemma filter_state_write_wakeup [simp]: "filter is_power_state_write (send_key_wakeup ufd) = []"
  by (simp add: send_key_wakeup_def emit_key_def)

lemma callback_not_in_wakeup [simp]: "Callback func b \<notin> set (send_key_wakeup ufd)"
  by (simp add: send_key_wakeup_def emit_key_def)

text \<open>
  C2 (as amended). In a cycle that reaches the commit write (the counter was read and
  the semaphore acquired), when the write of the token is rejected the cycle only
  releases the semaphore: the sleep-state node is not written and the callback is not
  invoked at all (the local \<open>success\<close> is still true, and reported to nobody). When
  the commit is accepted the sleep state is written once and the registered callback is
  invoked once, with \<open>success\<close> false if that write failed and true if it did not. A
  cycle that does not reach the commit write does neither. So the callback fires with
  \<open>false\<close> exactly when the commit was accepted and the write of the sleep state
  failed.
\<close>

theorem commit_rejected:
  "(0 < wakeup_count_len c \<and> \<not> wait_ret c < 0 \<and> commit_ret c < 0 \<longrightarrow>
      cr_effects (suspend_cycle env c wakeup_func ufd sleep_state) =
        [Usleep 100000, WakeupCountRead, SemWait,
         WakeupCountWrite (take (nat (wakeup_count_len c)) (wakeup_count c)), SemPost]
      \<and> filter is_power_state_write
          (cr_effects (suspend_cycle env c wakeup_func ufd sleep_state)) = []
      \<and> filter is_callback
          (cr_effects (suspend_cycle env c wakeup_func ufd sleep_state)) = []
      \<and> cr_success (suspend_cycle env c wakeup_func ufd sleep_state) = Some True)
   \<and> (0 < wakeup_count_len c \<and> \<not> wait_ret c < 0 \<and> \<not> commit_ret c < 0 \<longrightarrow>
      filter is_power_state_write
          (cr_effects (suspend_cycle env c wakeup_func ufd sleep_state)) =
        [PowerStateWrite (get_sleep_state env sleep_state)]
      \<and> filter is_callback
          (cr_effects (suspend_cycle env c wakeup_func ufd sleep_state)) =
        (case wakeup_func of None \<Rightarrow> [] | Some f \<Rightarrow> [Callback f (\<not> state_ret c < 0)])
      \<and> cr_success (suspend_cycle env c wakeup_func ufd sleep_state) =
        Some (\<not> state_ret c < 0))
   \<and> (\<not> (0 < wakeup_count_len c \<and> \<not> wait_ret c < 0) \<longrightarrow>
      filter is_power_state_write
          (cr_effects (suspend_cycle env c wakeup_func ufd sleep_state)) = []
      \<and> filter is_callback
          (cr_effects (suspend_cycle env c wakeup_func ufd sleep_state)) = []
      \<and> cr_success (suspend_cycle env c wakeup_func ufd sleep_state) = None)
   \<and> (Callback func False \<in> set (cr_effects (suspend_cycle env c wakeup_func ufd sleep_state))
        \<longleftrightarrow> 0 < wakeup_count_len c \<and> \<not> wait_ret c < 0 \<and> \<not> commit_ret c < 0
            \<and> state_ret c < 0 \<and> wakeup_func = Some func)
   \<and> (Callback func True \<in> set (cr_effects (suspend_cycle env c wakeup_func ufd sleep_state))
        \<longleftrightarrow> 0 < wakeup_count_len c \<and> \<not> wait_ret c < 0 \<and> \<not> commit_ret c < 0
            \<and> \<not> state_ret c < 0 \<and> wakeup_func = Some func)"
  by (cases wakeup_func) (auto simp: suspend_cycle_def Let_def)

theorem commit_rejected_witness:
  "cr_effects (suspend_cycle env0
      \<lparr>wakeup_count_len = 2, wakeup_count = ''42'', wait_ret = 0, commit_ret = -1,
        state_ret = 0, post_ret = 0\<rparr> (Some 1) 7 []) =
     [Usleep 100000, WakeupCountRead, SemWait, WakeupCountWrite ''42'', SemPost]
   \<and> filter is_callback (cr_effects (suspend_cycle env0
      \<lparr>wakeup_count_len = 2, wakeup_count = ''42'', wait_ret = 0, commit_ret = 0,
        state_ret = -1, post_ret = 0\<rparr> (Some 1) 7 [])) = [Callback 1 False]
   \<and> filter is_callback (cr_effects (suspend_cycle env0
      \<lparr>wakeup_count_len = 2, wakeup_count = ''42'', wait_ret = 0, commit_ret = 0,
        state_ret = 5, post_ret = 0\<rparr> (Some 1) 7 [])) = [Callback 1 True]
   \<and> filter is_callback (cr_effects (suspend_cycle env0
      \<lparr>wakeup_count_len = 0, wakeup_count = [], wait_ret = 0, commit_ret = 0,
        state_ret = 5, post_ret = 0\<rparr> (Some 1) 7 [])) = []"
proof -
  let ?c = "\<lparr>wakeup_count_len = 2, wakeup_count = ''42'', wait_ret = 0, commit_ret = -1,
        state_ret = 0, post_ret = 0\<rparr>"
  let ?d = "\<lparr>wakeup_count_len = 2, wakeup_count = ''42'', wait_ret = 0, commit_ret = 0,
        state_ret = -1, post_ret = 0\<rparr>"
  let ?e = "\<lparr>wakeup_count_len = 2, wakeup_count = ''42'', wait_ret = 0, commit_ret = 0,
        state_ret = 5, post_ret = 0\<rparr>"
  let ?f = "\<lparr>wakeup_count_len = 0, wakeup_count = [], wait_ret = 0, commit_ret = 0,
        state_ret = 5, post_ret = 0\<rparr>"
  have hc: "0 < wakeup_count_len ?c \<and> \<not> wait_ret ?c < 0 \<and> commit_ret ?c < 0"
    and hd: "0 < wakeup_count_len ?d \<and> \<not> wait_ret ?d < 0 \<and> \<not> commit_ret ?d < 0"
    and he: "0 < wakeup_count_len ?e \<and> \<not> wait_ret ?e < 0 \<and> \<not> commit_ret ?e < 0"
    and hf: "\<not> (0 < wakeup_count_len ?f \<and> \<not> wait_ret ?f < 0)"
    by simp_all
  from commit_rejected [of ?c env0 "Some 1" 7 "[]" 1] hc
  have a: "cr_effects (suspend_cycle env0 ?c (Some 1) 7 []) =
     [Usleep 100000, WakeupCountRead, SemWait, WakeupCountWrite ''42'', SemPost]"
    by simp
  from commit_rejected [of ?d env0 "Some 1" 7 "[]" 1] hd
  have b: "filter is_callback (cr_effects (suspend_cycle env0 ?d (Some 1) 7 [])) =
     [Callback 1 False]"
    by simp
  from commit_rejected [of ?e env0 "Some 1" 7 "[]" 1] he
  have c: "filter is_callback (cr_effects (suspend_cycle env0 ?e (Some 1) 7 [])) =
     [Callback 1 True]"
    by simp
  from commit_rejected [of ?f env0 "Some 1" 7 "[]" 1] hf
  have d: "filter is_callback (cr_effects (suspend_cycle env0 ?f (Some 1) 7 [])) = []"
    by blast
  from a b c d show ?thesis by blast
qed

text \<open>
  C2 as stated fails: with a callback registered and the commit write rejected, the
  callback is not invoked with \<open>false\<close> (it is not invoked), and \<open>success\<close> is true.
\<close>

theorem commit_rejected_callback_counterexample:
  "Callback 1 False \<notin> set (cr_effects (suspend_cycle env0
      \<lparr>wakeup_count_len = 2, wakeup_count = ''42'', wait_ret = 0, commit_ret = -1,
        state_ret = 0, post_ret = 0\<rparr> (Some 1) 7 []))
   \<and> filter is_callback (cr_effects (suspend_cycle env0
      \<lparr>wakeup_count_len = 2, wakeup_count = ''42'', wait_ret = 0, commit_ret = -1,
        state_ret = 0, post_ret = 0\<rparr> (Some 1) 7 [])) = []
   \<and> cr_success (suspend_cycle env0
      \<lparr>wakeup_count_len = 2, wakeup_count = ''42'', wait_ret = 0, commit_ret = -1,
        state_ret = 0, post_ret = 0\<rparr> (Some 1) 7 []) = Some True"
  by (simp add: suspend_cycle_def)

section \<open>Backend selection\<close>

lemma start_earlysuspend_thread_fields:
  "autosuspend_ops (start_earlysuspend_thread env s) = autosuspend_ops s"
  "autosuspend_inited (start_earlysuspend_thread env s) = autosuspend_inited s"
  "autosuspend_enabled (start_earlysuspend_thread env s) = autosuspend_enabled s"
  "probes (start_earlysuspend_thread env s) = probes s"
  by (simp_all add: start_earlysuspend_thread_def)

lemma init_android_power_button_fields:
  "autosuspend_ops (init_android_power_button env s) = autosuspend_ops s"
  "autosuspend_inited (init_android_power_button env s) = autosuspend_inited s"
  "autosuspend_enabled (init_android_power_button env s) = autosuspend_enabled s"
  "probes (init_android_power_button env s) = probes s"
  by (simp_all add: init_android_power_button_def)

lemma earlysuspend_init_result:
  "fst (autosuspend_earlysuspend_init env s) =
     (if es_open_ok env \<and> es_read_ok env then Some Earlysuspend_ops else None)"
  "autosuspend_inited (snd (autosuspend_earlysuspend_init env s)) = autosuspend_inited s"
  "autosuspend_enabled (snd (autosuspend_earlysuspend_init env s)) = autosuspend_enabled s"
  "probes (snd (autosuspend_earlysuspend_init env s)) = probes s @ [Earlysuspend_ops]"
  by (simp_all add: autosuspend_earlysuspend_init_def Let_def start_earlysuspend_thread_fields)

lemma earlysuspend_init_wait:
  "wait_for_earlysuspend (snd (autosuspend_earlysuspend_init env s)) =
     (if es_open_ok env \<and> es_read_ok env \<and> fb_sleep_access env \<and> fb_wake_access env
         \<and> es_thread_ok env
      then True else wait_for_earlysuspend s)"
  by (simp add: autosuspend_earlysuspend_init_def Let_def start_earlysuspend_thread_def)

lemma wakeup_count_init_result:
  "fst (autosuspend_wakeup_count_init env s) =
     (if wakeup_count_ok env then Some Wakeup_count_ops else None)"
  "autosuspend_inited (snd (autosuspend_wakeup_count_init env s)) = autosuspend_inited s"
  "autosuspend_enabled (snd (autosuspend_wakeup_count_init env s)) = autosuspend_enabled s"
  "probes (snd (autosuspend_wakeup_count_init env s)) = probes s @ [Wakeup_count_ops]"
  by (simp_all add: autosuspend_wakeup_count_init_def Let_def wakeup_count_ok_def
      init_android_power_button_fields)

lemma autosuspend_init_fresh:
  assumes "\<not> autosuspend_inited s" and "autosuspend_ops s = None"
  shows "autosuspend_ops (snd (autosuspend_init env s)) =
           (if earlysuspend_flag env \<and> es_open_ok env \<and> es_read_ok env then Some Earlysuspend_ops
            else if wakeup_count_ok env then Some Wakeup_count_ops else None)"
    and "fst (autosuspend_init env s) =
           (if (earlysuspend_flag env \<and> es_open_ok env \<and> es_read_ok env) \<or> wakeup_count_ok env
            then 0 else -1)"
    and "autosuspend_inited (snd (autosuspend_init env s)) \<longleftrightarrow>
           (earlysuspend_flag env \<and> es_open_ok env \<and> es_read_ok env) \<or> wakeup_count_ok env"
    and "autosuspend_enabled (snd (autosuspend_init env s)) = autosuspend_enabled s"
    and "probes (snd (autosuspend_init env s)) = probes s @ probe_sequence env"
  using assms
  by (simp_all add: autosuspend_init_def Let_def case_prod_beta earlysuspend_init_result
      wakeup_count_init_result probe_sequence_def)

lemma engine0_fresh: "\<not> autosuspend_inited engine0" "autosuspend_ops engine0 = None"
  by (simp_all add: engine0_def)

lemma env0_flags:
  "earlysuspend_flag env0" "es_open_ok env0" "es_read_ok env0" "\<not> fb_sleep_access env0"
  "wakeup_count_ok env0"
  by (simp_all add: env0_def earlysuspend_flag_def wakeup_count_ok_def)

text \<open>
  C3 (as amended). From the uninitialized controller, the backend selected is a function
  of the environment: early suspend exactly when the early-suspend flag is set and the
  power-state node can be opened and read; otherwise wakeup count when its own
  initialization succeeds, and none (the initialization returns -1) when it fails. The
  two fb-wait nodes take no part in the selection: the early-suspend initialization
  succeeds without them, and they only decide (with the thread creation) whether
  \<open>wait_for_earlysuspend\<close> is set.
\<close>

theorem backend_selection:
  assumes "\<not> autosuspend_inited s" and "autosuspend_ops s = None"
  shows "autosuspend_ops (snd (autosuspend_init env s)) =
           (if earlysuspend_flag env \<and> es_open_ok env \<and> es_read_ok env then Some Earlysuspend_ops
            else if wakeup_count_ok env then Some Wakeup_count_ops else None)
       \<and> fst (autosuspend_init env s) =
           (if (earlysuspend_flag env \<and> es_open_ok env \<and> es_read_ok env) \<or> wakeup_count_ok env
            then 0 else -1)
       \<and> fst (autosuspend_earlysuspend_init env s) =
           (if es_open_ok env \<and> es_read_ok env then Some Earlysuspend_ops else None)
       \<and> wait_for_earlysuspend (snd (autosuspend_earlysuspend_init env s)) =
           (if es_open_ok env \<and> es_read_ok env \<and> fb_sleep_access env \<and> fb_wake_access env
               \<and> es_thread_ok env
            then True else wait_for_earlysuspend s)"
  using autosuspend_init_fresh(1,2) [OF assms, of env]
  by (simp add: earlysuspend_init_result(1) earlysuspend_init_wait)

theorem backend_selection_witness:
  "autosuspend_ops (snd (autosuspend_init (env0\<lparr>prop_earlysuspend := ''0''\<rparr>) engine0)) =
     Some Wakeup_count_ops
   \<and> fst (autosuspend_init (env0\<lparr>prop_earlysuspend := ''0''\<rparr>) engine0) = 0"
proof -
  have f: "\<not> earlysuspend_flag (env0\<lparr>prop_earlysuspend := ''0''\<rparr>)"
    by (simp add: earlysuspend_flag_def)
  have w: "wakeup_count_ok (env0\<lparr>prop_earlysuspend := ''0''\<rparr>)"
    by (simp add: wakeup_count_ok_def env0_def)
  from backend_selection [OF engine0_fresh, of "env0\<lparr>prop_earlysuspend := ''0''\<rparr>"] f w
  show ?thesis by simp
qed

text \<open>
  C3 as stated fails: with the flag set and the fb-sleep node absent, early suspend is
  selected all the same; and with the flag off and the wakeup-count node missing, no
  backend is selected.
\<close>

theorem backend_selection_counterexample:
  "\<not> fb_sleep_access env0
   \<and> autosuspend_ops (snd (autosuspend_init env0 engine0)) = Some Earlysuspend_ops
   \<and> autosuspend_init (env0\<lparr>prop_earlysuspend := ''0'', wc_count_open_ok := False\<rparr>) engine0 =
       (-1, engine0\<lparr>uinput_fd := 7, threads := [Powerbtnd_thread], probes := [Wakeup_count_ops]\<rparr>)"
  by (simp add: env0_def engine0_def autosuspend_init_def autosuspend_earlysuspend_init_def
      autosuspend_wakeup_count_init_def start_earlysuspend_thread_def
      init_android_power_button_def earlysuspend_flag_def Let_def)

section \<open>A failed initialization is not remembered\<close>

text \<open>
  C10. When no backend initializes, \<open>autosuspend_enable\<close> and \<open>autosuspend_disable\<close>
  return the error -1 and leave \<open>autosuspend_inited\<close> unset and \<open>autosuspend_ops\<close>
  \<open>NULL\<close>, so the next initialization runs the whole probing sequence again (and
  selects by the environment of that moment); after a successful initialization the flag
  is set and every later initialization returns 0 at once, changing nothing.
\<close>

theorem failed_init_not_latched:
  assumes "\<not> autosuspend_inited s" and "autosuspend_ops s = None"
    and "fst (autosuspend_init env s) \<noteq> 0"
  shows "autosuspend_enable env s = Some (-1, snd (autosuspend_init env s))
       \<and> autosuspend_disable env s = Some (-1, snd (autosuspend_init env s))
       \<and> \<not> autosuspend_inited (snd (autosuspend_init env s))
       \<and> autosuspend_ops (snd (autosuspend_init env s)) = None
       \<and> probes (snd (autosuspend_init env' (snd (autosuspend_init env s)))) =
           probes s @ probe_sequence env @ probe_sequence env'
       \<and> autosuspend_ops (snd (autosuspend_init env' (snd (autosuspend_init env s)))) =
           (if earlysuspend_flag env' \<and> es_open_ok env' \<and> es_read_ok env'
            then Some Earlysuspend_ops
            else if wakeup_count_ok env' then Some Wakeup_count_ops else None)
       \<and> (fst (autosuspend_init env' s) = 0 \<longrightarrow>
            autosuspend_inited (snd (autosuspend_init env' s))
            \<and> autosuspend_init env'' (snd (autosuspend_init env' s)) =
                (0, snd (autosuspend_init env' s)))"
proof -
  note fresh = autosuspend_init_fresh [OF assms(1,2)]
  let ?s' = "snd (autosuspend_init env s)"
  from assms(3) fresh(2) [of env] have ret: "fst (autosuspend_init env s) = -1"
    by (simp split: if_splits)
  from assms(3) fresh(2,3) [of env] have ni: "\<not> autosuspend_inited ?s'"
    by (simp split: if_splits)
  from assms(3) fresh(1,2) [of env] have no: "autosuspend_ops ?s' = None"
    by (simp split: if_splits)
  note again = autosuspend_init_fresh [OF ni no]
  have en: "autosuspend_enable env s = Some (-1, ?s')"
    using ret by (simp add: autosuspend_enable_def case_prod_beta)
  have dis: "autosuspend_disable env s = Some (-1, ?s')"
    using ret by (simp add: autosuspend_disable_def case_prod_beta)
  have pr: "probes (snd (autosuspend_init env' ?s')) =
           probes s @ probe_sequence env @ probe_sequence env'"
    using again(5) [of env'] fresh(5) [of env] by simp
  have cached: "fst (autosuspend_init env' s) = 0 \<longrightarrow>
            autosuspend_inited (snd (autosuspend_init env' s))
            \<and> autosuspend_init env'' (snd (autosuspend_init env' s)) =
                (0, snd (autosuspend_init env' s))"
  proof
    assume "fst (autosuspend_init env' s) = 0"
    with fresh(2,3) [of env'] have "autosuspend_inited (snd (autosuspend_init env' s))"
      by (simp split: if_splits)
    then show "autosuspend_inited (snd (autosuspend_init env' s))
            \<and> autosuspend_init env'' (snd (autosuspend_init env' s)) =
                (0, snd (autosuspend_init env' s))"
      by (simp add: autosuspend_init_def)
  qed
  from en dis ni no pr again(1) [of env'] cached show ?thesis by blast
qed

theorem failed_init_not_latched_witness:
  "autosuspend_enable env_fail engine0 =
     Some (-1, engine0\<lparr>uinput_fd := 7, threads := [Powerbtnd_thread],
                       probes := [Earlysuspend_ops, Wakeup_count_ops]\<rparr>)
   \<and> probes (snd (autosuspend_init env0 (snd (autosuspend_init env_fail engine0)))) =
       [Earlysuspend_ops, Wakeup_count_ops, Earlysuspend_ops]
   \<and> autosuspend_ops (snd (autosuspend_init env0 (snd (autosuspend_init env_fail engine0)))) =
       Some Earlysuspend_ops
   \<and> autosuspend_init env_fail (snd (autosuspend_init env0 engine0)) =
       (0, snd (autosuspend_init env0 engine0))"
proof -
  have st: "autosuspend_init env_fail engine0 =
      (-1, engine0\<lparr>uinput_fd := 7, threads := [Powerbtnd_thread],
                    probes := [Earlysuspend_ops, Wakeup_count_ops]\<rparr>)"
    by (simp add: env_fail_def env0_def engine0_def autosuspend_init_def
        autosuspend_earlysuspend_init_def autosuspend_wakeup_count_init_def
        init_android_power_button_def earlysuspend_flag_def Let_def)
  then have ne: "fst (autosuspend_init env_fail engine0) \<noteq> 0" by simp
  have p0: "probe_sequence env0 = [Earlysuspend_ops]"
    by (simp add: probe_sequence_def env0_flags)
  have pf: "probe_sequence env_fail = [Earlysuspend_ops, Wakeup_count_ops]"
    by (simp add: probe_sequence_def env_fail_def earlysuspend_flag_def env0_def)
  have pe: "probes engine0 = []" by (simp add: engine0_def)
  have ok: "fst (autosuspend_init env0 engine0) = 0"
    using autosuspend_init_fresh(2) [OF engine0_fresh, of env0] env0_flags by simp
  note inst = failed_init_not_latched [OF engine0_fresh ne, of env0 env_fail]
  from inst ok have cached: "autosuspend_init env_fail (snd (autosuspend_init env0 engine0)) =
       (0, snd (autosuspend_init env0 engine0))"
    by blast
  from inst st p0 pf pe env0_flags
  have "autosuspend_enable env_fail engine0 =
     Some (-1, engine0\<lparr>uinput_fd := 7, threads := [Powerbtnd_thread],
                       probes := [Earlysuspend_ops, Wakeup_count_ops]\<rparr>)
   \<and> probes (snd (autosuspend_init env0 (snd (autosuspend_init env_fail engine0)))) =
       [Earlysuspend_ops, Wakeup_count_ops, Earlysuspend_ops]
   \<and> autosuspend_ops (snd (autosuspend_init env0 (snd (autosuspend_init env_fail engine0)))) =
       Some Earlysuspend_ops"
    by simp
  with cached show ?thesis by blast
qed

section \<open>Controller enable and disable\<close>

lemma ops_enable_flags:
  assumes "ops_enable b env s = Some (r, s')"
  shows "autosuspend_enabled s' = autosuspend_enabled s"
    and "autosuspend_inited s' = autosuspend_inited s"
    and "autosuspend_ops s' = autosuspend_ops s"
  using assms
  by (cases b; auto simp: autosuspend_earlysuspend_enable_def autosuspend_wakeup_count_enable_def
        Let_def split: if_splits)+

lemma ops_disable_flags:
  assumes "ops_disable b env s = Some (r, s')"
  shows "autosuspend_enabled s' = autosuspend_enabled s"
    and "autosuspend_inited s' = autosuspend_inited s"
    and "autosuspend_ops s' = autosuspend_ops s"
  using assms
  by (cases b; auto simp: autosuspend_earlysuspend_disable_def autosuspend_wakeup_count_disable_def
        Let_def split: if_splits)+

lemma autosuspend_init_done: "autosuspend_inited s \<Longrightarrow> autosuspend_init env s = (0, s)"
  by (simp add: autosuspend_init_def)

lemma engine_ok_engine0: "engine_ok engine0"
  by (simp add: engine_ok_def engine0_def)

lemma autosuspend_init_ok_all:
  assumes "engine_ok s"
  shows "engine_ok (snd (autosuspend_init env s))
       \<and> autosuspend_enabled (snd (autosuspend_init env s)) = autosuspend_enabled s
       \<and> (fst (autosuspend_init env s) = 0 \<longleftrightarrow> autosuspend_inited (snd (autosuspend_init env s)))
       \<and> (fst (autosuspend_init env s) = 0 \<or> fst (autosuspend_init env s) = -1)"
proof (cases "autosuspend_inited s")
  case True
  with assms show ?thesis
    by (simp add: autosuspend_init_done)
next
  case False
  with assms have none: "autosuspend_ops s = None" and dis: "\<not> autosuspend_enabled s"
    by (auto simp: engine_ok_def)
  note fresh = autosuspend_init_fresh [OF False none, of env]
  from fresh dis show ?thesis
    by (auto simp: engine_ok_def split: if_splits)
qed

lemma autosuspend_init_ok:
  assumes "engine_ok s"
  shows "engine_ok (snd (autosuspend_init env s))"
    and "autosuspend_enabled (snd (autosuspend_init env s)) = autosuspend_enabled s"
    and "fst (autosuspend_init env s) = 0 \<longleftrightarrow> autosuspend_inited (snd (autosuspend_init env s))"
    and "fst (autosuspend_init env s) = 0 \<or> fst (autosuspend_init env s) = -1"
  using autosuspend_init_ok_all [OF assms, of env] by blast+

lemma engine_ok_enable:
  assumes "engine_ok s" and "autosuspend_enable env s = Some (r, s')"
  shows "engine_ok s'"
proof -
  let ?s1 = "snd (autosuspend_init env s)"
  note ok1 = autosuspend_init_ok [OF assms(1), of env]
  show ?thesis
  proof (cases "fst (autosuspend_init env s) \<noteq> 0 \<or> autosuspend_enabled ?s1")
    case True
    with assms(2) have "s' = ?s1"
      by (auto simp: autosuspend_enable_def case_prod_beta split: if_splits)
    with ok1(1) show ?thesis by simp
  next
    case False
    with ok1 have ini: "autosuspend_inited ?s1" by simp
    with ok1(1) obtain b where b: "autosuspend_ops ?s1 = Some b"
      by (auto simp: engine_ok_def)
    from False b assms(2) obtain r2 s2 where op: "ops_enable b env ?s1 = Some (r2, s2)"
      and s': "s' = s2 \<or> s' = s2\<lparr>autosuspend_enabled := True\<rparr>"
      by (auto simp: autosuspend_enable_def case_prod_beta split: if_splits option.splits)
    from ops_enable_flags [OF op] ok1(1) ini have "engine_ok s2"
      by (simp add: engine_ok_def)
    moreover from ops_enable_flags [OF op] ok1(1) ini
    have "engine_ok (s2\<lparr>autosuspend_enabled := True\<rparr>)"
      by (simp add: engine_ok_def)
    ultimately show ?thesis using s' by blast
  qed
qed

lemma engine_ok_disable:
  assumes "engine_ok s" and "autosuspend_disable env s = Some (r, s')"
  shows "engine_ok s'"
proof -
  let ?s1 = "snd (autosuspend_init env s)"
  note ok1 = autosuspend_init_ok [OF assms(1), of env]
  show ?thesis
  proof (cases "fst (autosuspend_init env s) \<noteq> 0 \<or> \<not> autosuspend_enabled ?s1")
    case True
    with assms(2) have "s' = ?s1"
      by (auto simp: autosuspend_disable_def case_prod_beta split: if_splits)
    with ok1(1) show ?thesis by simp
  next
    case False
    with ok1 have ini: "autosuspend_inited ?s1" by simp
    with ok1(1) obtain b where b: "autosuspend_ops ?s1 = Some b"
      by (auto simp: engine_ok_def)
    from False b assms(2) obtain r2 s2 where op: "ops_disable b env ?s1 = Some (r2, s2)"
      and s': "s' = s2 \<or> s' = s2\<lparr>autosuspend_enabled := False\<rparr>"
      by (auto simp: autosuspend_disable_def case_prod_beta split: if_splits option.splits)
    from ops_disable_flags [OF op] ok1(1) ini have "engine_ok s2"
      by (simp add: engine_ok_def)
    moreover from ops_disable_flags [OF op] ok1(1) ini
    have "engine_ok (s2\<lparr>autosuspend_enabled := False\<rparr>)"
      by (simp add: engine_ok_def)
    ultimately show ?thesis using s' by blast
  qed
qed

text \<open>
  C5 (as amended). Both calls start with the initialization, which returns 0 at once
  when it was done before. When it fails, the call returns its error, calls no backend
  and leaves the engine disabled. When it succeeds a backend is selected, and then:
  \<open>autosuspend_enable\<close> returns 0 and changes nothing when the engine is already
  enabled; otherwise it calls the backend's \<open>enable\<close>, returns its status when that
  is not 0, leaving the engine disabled, and sets the engine enabled only when the
  backend returned 0. \<open>autosuspend_disable\<close> is the mirror image: with the engine
  disabled it returns 0 having done nothing but the initialization, otherwise it calls
  the backend's \<open>disable\<close> and clears the flag only on status 0.
\<close>

theorem controller_enable_disable:
  assumes ok: "engine_ok s"
  shows "(autosuspend_enabled s \<longrightarrow> autosuspend_enable env s = Some (0, s))
   \<and> (autosuspend_inited s \<longrightarrow> autosuspend_init env s = (0, s))
   \<and> (fst (autosuspend_init env s) \<noteq> 0 \<longrightarrow>
        \<not> autosuspend_enabled s
        \<and> autosuspend_enable env s =
            Some (fst (autosuspend_init env s), snd (autosuspend_init env s))
        \<and> autosuspend_disable env s =
            Some (fst (autosuspend_init env s), snd (autosuspend_init env s))
        \<and> \<not> autosuspend_enabled (snd (autosuspend_init env s)))
   \<and> (\<not> autosuspend_enabled s \<and> fst (autosuspend_init env s) = 0 \<longrightarrow>
        autosuspend_ops (snd (autosuspend_init env s)) \<noteq> None
        \<and> autosuspend_disable env s = Some (0, snd (autosuspend_init env s))
        \<and> \<not> autosuspend_enabled (snd (autosuspend_init env s)))
   \<and> (\<not> autosuspend_enabled s \<and> fst (autosuspend_init env s) = 0
        \<and> autosuspend_ops (snd (autosuspend_init env s)) = Some b
        \<and> ops_enable b env (snd (autosuspend_init env s)) = Some (r, s') \<and> r \<noteq> 0 \<longrightarrow>
        autosuspend_enable env s = Some (r, s') \<and> \<not> autosuspend_enabled s')
   \<and> (\<not> autosuspend_enabled s \<and> fst (autosuspend_init env s) = 0
        \<and> autosuspend_ops (snd (autosuspend_init env s)) = Some b
        \<and> ops_enable b env (snd (autosuspend_init env s)) = Some (0, s') \<longrightarrow>
        autosuspend_enable env s = Some (0, s'\<lparr>autosuspend_enabled := True\<rparr>))
   \<and> (\<not> autosuspend_enabled s \<and> fst (autosuspend_init env s) = 0
        \<and> autosuspend_ops (snd (autosuspend_init env s)) = Some b
        \<and> ops_enable b env (snd (autosuspend_init env s)) = None \<longrightarrow>
        autosuspend_enable env s = None)
   \<and> (autosuspend_enabled s \<longrightarrow> autosuspend_ops s \<noteq> None)
   \<and> (autosuspend_enabled s \<and> autosuspend_ops s = Some b
        \<and> ops_disable b env s = Some (r, s') \<and> r \<noteq> 0 \<longrightarrow>
        autosuspend_disable env s = Some (r, s') \<and> autosuspend_enabled s')
   \<and> (autosuspend_enabled s \<and> autosuspend_ops s = Some b
        \<and> ops_disable b env s = Some (0, s') \<longrightarrow>
        autosuspend_disable env s = Some (0, s'\<lparr>autosuspend_enabled := False\<rparr>))
   \<and> (autosuspend_enabled s \<and> autosuspend_ops s = Some b \<and> ops_disable b env s = None \<longrightarrow>
        autosuspend_disable env s = None)
   \<and> (autosuspend_enable env s = Some (r, s') \<longrightarrow> engine_ok s')
   \<and> (autosuspend_disable env s = Some (r, s') \<longrightarrow> engine_ok s')"
proof -
  let ?r1 = "fst (autosuspend_init env s)"
  let ?s1 = "snd (autosuspend_init env s)"
  note ok1 = autosuspend_init_ok [OF ok, of env]
  have en_inited: "autosuspend_inited s" if "autosuspend_enabled s"
    using that ok by (auto simp: engine_ok_def)
  have init_done: "autosuspend_init env s = (0, s)" if "autosuspend_inited s"
    using that by (rule autosuspend_init_done)
  have c1: "autosuspend_enabled s \<longrightarrow> autosuspend_enable env s = Some (0, s)"
    using en_inited init_done by (auto simp: autosuspend_enable_def)
  have c2: "autosuspend_inited s \<longrightarrow> autosuspend_init env s = (0, s)"
    using init_done by blast
  have c3: "?r1 \<noteq> 0 \<longrightarrow>
        \<not> autosuspend_enabled s
        \<and> autosuspend_enable env s = Some (?r1, ?s1)
        \<and> autosuspend_disable env s = Some (?r1, ?s1)
        \<and> \<not> autosuspend_enabled ?s1"
  proof
    assume ne: "?r1 \<noteq> 0"
    with ok1(3) have "\<not> autosuspend_inited ?s1" by simp
    with ok1(1) have "\<not> autosuspend_enabled ?s1" by (auto simp: engine_ok_def)
    with ok1(2) ne show "\<not> autosuspend_enabled s
        \<and> autosuspend_enable env s = Some (?r1, ?s1)
        \<and> autosuspend_disable env s = Some (?r1, ?s1)
        \<and> \<not> autosuspend_enabled ?s1"
      by (simp add: autosuspend_enable_def autosuspend_disable_def case_prod_beta)
  qed
  have c4: "\<not> autosuspend_enabled s \<and> ?r1 = 0 \<longrightarrow>
        autosuspend_ops ?s1 \<noteq> None
        \<and> autosuspend_disable env s = Some (0, ?s1)
        \<and> \<not> autosuspend_enabled ?s1"
    using ok1 by (auto simp: engine_ok_def autosuspend_disable_def case_prod_beta)
  have c5: "\<not> autosuspend_enabled s \<and> ?r1 = 0 \<and> autosuspend_ops ?s1 = Some b
        \<and> ops_enable b env ?s1 = Some (r, s') \<and> r \<noteq> 0 \<longrightarrow>
        autosuspend_enable env s = Some (r, s') \<and> \<not> autosuspend_enabled s'"
    using ok1(2) ops_enable_flags(1) [of b env ?s1 r s']
    by (auto simp: autosuspend_enable_def case_prod_beta)
  have c6: "\<not> autosuspend_enabled s \<and> ?r1 = 0 \<and> autosuspend_ops ?s1 = Some b
        \<and> ops_enable b env ?s1 = Some (0, s') \<longrightarrow>
        autosuspend_enable env s = Some (0, s'\<lparr>autosuspend_enabled := True\<rparr>)"
    using ok1(2) by (auto simp: autosuspend_enable_def case_prod_beta)
  have c7: "\<not> autosuspend_enabled s \<and> ?r1 = 0 \<and> autosuspend_ops ?s1 = Some b
        \<and> ops_enable b env ?s1 = None \<longrightarrow> autosuspend_enable env s = None"
    using ok1(2) by (auto simp: autosuspend_enable_def case_prod_beta)
  have c8: "autosuspend_enabled s \<longrightarrow> autosuspend_ops s \<noteq> None"
    using ok by (auto simp: engine_ok_def)
  have c9: "autosuspend_enabled s \<and> autosuspend_ops s = Some b
        \<and> ops_disable b env s = Some (r, s') \<and> r \<noteq> 0 \<longrightarrow>
        autosuspend_disable env s = Some (r, s') \<and> autosuspend_enabled s'"
    using en_inited init_done ops_disable_flags(1) [of b env s r s']
    by (auto simp: autosuspend_disable_def)
  have c10: "autosuspend_enabled s \<and> autosuspend_ops s = Some b
        \<and> ops_disable b env s = Some (0, s') \<longrightarrow>
        autosuspend_disable env s = Some (0, s'\<lparr>autosuspend_enabled := False\<rparr>)"
    using en_inited init_done by (auto simp: autosuspend_disable_def)
  have c11: "autosuspend_enabled s \<and> autosuspend_ops s = Some b \<and> ops_disable b env s = None \<longrightarrow>
        autosuspend_disable env s = None"
    using en_inited init_done by (auto simp: autosuspend_disable_def)
  have c12: "autosuspend_enable env s = Some (r, s') \<longrightarrow> engine_ok s'"
    using engine_ok_enable [OF ok] by blast
  have c13: "autosuspend_disable env s = Some (r, s') \<longrightarrow> engine_ok s'"
    using engine_ok_disable [OF ok] by blast
  from c1 c2 c3 c4 c5 c6 c7 c8 c9 c10 c11 c12 c13 show ?thesis by blast
qed

theorem controller_enable_disable_witness:
  "engine_ok engine0
   \<and> autosuspend_enable (env0\<lparr>prop_earlysuspend := ''0''\<rparr>) engine0 =
       Some (0, engine1\<lparr>suspend_lockout := 1, autosuspend_enabled := True\<rparr>)
   \<and> autosuspend_disable (env0\<lparr>prop_earlysuspend := ''0''\<rparr>) engine0 = Some (0, engine1)
   \<and> autosuspend_enable env_fail engine0 =
       Some (-1, snd (autosuspend_init env_fail engine0))
   \<and> autosuspend_enable (env0\<lparr>sem_post_ret := -1\<rparr>) engine1 = Some (-1, engine1)
   \<and> autosuspend_enable env0 engine1 =
       Some (0, engine1\<lparr>suspend_lockout := 1, autosuspend_enabled := True\<rparr>)
   \<and> autosuspend_enable env0 (engine1\<lparr>suspend_lockout := 1, autosuspend_enabled := True\<rparr>) =
       Some (0, engine1\<lparr>suspend_lockout := 1, autosuspend_enabled := True\<rparr>)
   \<and> autosuspend_disable env0 (engine1\<lparr>suspend_lockout := 1, autosuspend_enabled := True\<rparr>) =
       Some (0, engine1\<lparr>suspend_lockout := 0, autosuspend_enabled := False\<rparr>)
   \<and> autosuspend_disable env0 engine1 = Some (0, engine1)
   \<and> autosuspend_disable (env0\<lparr>sem_wait_ret := -1\<rparr>)
         (engine1\<lparr>suspend_lockout := 1, autosuspend_enabled := True\<rparr>) =
       Some (-1, engine1\<lparr>suspend_lockout := 1, autosuspend_enabled := True\<rparr>)
   \<and> autosuspend_disable env0 (engine1\<lparr>autosuspend_enabled := True\<rparr>) = None
   \<and> autosuspend_enable (env0\<lparr>fb_reached := False\<rparr>) engine2 = None
   \<and> engine_ok (engine1\<lparr>suspend_lockout := 1, autosuspend_enabled := True\<rparr>)"
proof -
  let ?on = "engine1\<lparr>suspend_lockout := 1, autosuspend_enabled := True\<rparr>"
  let ?dry = "engine1\<lparr>autosuspend_enabled := True\<rparr>"
  let ?wc = "env0\<lparr>prop_earlysuspend := ''0''\<rparr>"
  have k0: "engine_ok engine0" and k1: "engine_ok engine1" and k2: "engine_ok ?on"
    and k3: "engine_ok ?dry" and k4: "engine_ok engine2"
    by (simp_all add: engine_ok_def engine0_def engine1_def engine2_def)
  have e0: "\<not> autosuspend_enabled engine0" and e1: "\<not> autosuspend_enabled engine1"
    and e2: "autosuspend_enabled ?on" and e3: "autosuspend_enabled ?dry"
    and e4: "\<not> autosuspend_enabled engine2"
    by (simp_all add: engine0_def engine1_def engine2_def)
  have o1: "autosuspend_ops engine1 = Some Wakeup_count_ops"
    and o2: "autosuspend_ops ?on = Some Wakeup_count_ops"
    and o3: "autosuspend_ops ?dry = Some Wakeup_count_ops"
    and o4: "autosuspend_ops engine2 = Some Earlysuspend_ops"
    by (simp_all add: engine0_def engine1_def engine2_def)
  have i1: "autosuspend_init env engine1 = (0, engine1)"
    and i4: "autosuspend_init env engine2 = (0, engine2)" for env
    by (simp_all add: autosuspend_init_def engine0_def engine1_def engine2_def)
  have init: "autosuspend_init ?wc engine0 = (0, engine1)"
    by (simp add: env0_def engine0_def engine1_def autosuspend_init_def
        autosuspend_wakeup_count_init_def init_android_power_button_def earlysuspend_flag_def
        Let_def)
  have initf: "fst (autosuspend_init env_fail engine0) \<noteq> 0"
    by (simp add: env_fail_def env0_def engine0_def autosuspend_init_def
        autosuspend_earlysuspend_init_def autosuspend_wakeup_count_init_def
        init_android_power_button_def earlysuspend_flag_def Let_def)
  have post0: "ops_enable Wakeup_count_ops ?wc engine1 =
      Some (0, engine1\<lparr>suspend_lockout := 1\<rparr>)"
    by (simp add: autosuspend_wakeup_count_enable_def env0_def engine1_def engine0_def)
  have fail: "ops_enable Wakeup_count_ops (env0\<lparr>sem_post_ret := -1\<rparr>) engine1 =
      Some (-1, engine1)"
    by (simp add: autosuspend_wakeup_count_enable_def)
  have post: "ops_enable Wakeup_count_ops env0 engine1 =
      Some (0, engine1\<lparr>suspend_lockout := 1\<rparr>)"
    by (simp add: autosuspend_wakeup_count_enable_def env0_def engine1_def engine0_def)
  have dis: "ops_disable Wakeup_count_ops env0 ?on = Some (0, ?on\<lparr>suspend_lockout := 0\<rparr>)"
    by (simp add: autosuspend_wakeup_count_disable_def env0_def engine1_def engine0_def)
  have disfail: "ops_disable Wakeup_count_ops (env0\<lparr>sem_wait_ret := -1\<rparr>) ?on = Some (-1, ?on)"
    by (simp add: autosuspend_wakeup_count_disable_def)
  have disblock: "ops_disable Wakeup_count_ops env0 ?dry = None"
    by (simp add: autosuspend_wakeup_count_disable_def env0_def engine1_def engine0_def)
  have enblock: "ops_enable Earlysuspend_ops (env0\<lparr>fb_reached := False\<rparr>) engine2 = None"
    by (simp add: autosuspend_earlysuspend_enable_def env0_def engine2_def engine0_def Let_def)
  let ?i0 = "autosuspend_init ?wc engine0"
  have ha: "\<not> autosuspend_enabled engine0 \<and> fst ?i0 = 0
      \<and> autosuspend_ops (snd ?i0) = Some Wakeup_count_ops
      \<and> ops_enable Wakeup_count_ops ?wc (snd ?i0) = Some (0, engine1\<lparr>suspend_lockout := 1\<rparr>)"
    using e0 init o1 post0 by simp
  have hb: "\<not> autosuspend_enabled engine0 \<and> fst ?i0 = 0"
    using e0 init by simp
  note inst0 = controller_enable_disable
    [OF k0, of ?wc Wakeup_count_ops 0 "engine1\<lparr>suspend_lockout := 1\<rparr>"]
  from inst0 [THEN conjunct2, THEN conjunct2, THEN conjunct2, THEN conjunct2, THEN conjunct2, THEN conjunct1, THEN mp, OF ha]
  have a: "autosuspend_enable ?wc engine0 = Some (0, ?on)" .
  from inst0 [THEN conjunct2, THEN conjunct2, THEN conjunct2, THEN conjunct1, THEN mp, OF hb]
  have "autosuspend_disable ?wc engine0 = Some (0, snd ?i0)"
    by (rule conjunct2 [THEN conjunct1])
  with init have b: "autosuspend_disable ?wc engine0 = Some (0, engine1)"
    by simp
  note instf = controller_enable_disable [OF k0, of env_fail Wakeup_count_ops 0 engine1]
  from instf [THEN conjunct2, THEN conjunct2, THEN conjunct1, THEN mp, OF initf]
  have c: "autosuspend_enable env_fail engine0 =
      Some (fst (autosuspend_init env_fail engine0), snd (autosuspend_init env_fail engine0))"
    by (rule conjunct2 [THEN conjunct1])
  from initf autosuspend_init_ok(4) [OF k0, of env_fail]
  have "fst (autosuspend_init env_fail engine0) = -1"
    by blast
  with c have c': "autosuspend_enable env_fail engine0 =
      Some (-1, snd (autosuspend_init env_fail engine0))"
    by simp
  have hd: "\<not> autosuspend_enabled engine1
      \<and> fst (autosuspend_init (env0\<lparr>sem_post_ret := -1\<rparr>) engine1) = 0
      \<and> autosuspend_ops (snd (autosuspend_init (env0\<lparr>sem_post_ret := -1\<rparr>) engine1)) =
          Some Wakeup_count_ops
      \<and> ops_enable Wakeup_count_ops (env0\<lparr>sem_post_ret := -1\<rparr>)
          (snd (autosuspend_init (env0\<lparr>sem_post_ret := -1\<rparr>) engine1)) = Some (-1, engine1)
      \<and> (-1::int) \<noteq> 0"
    using e1 o1 i1 fail by simp
  note instd = controller_enable_disable
    [OF k1, of "env0\<lparr>sem_post_ret := -1\<rparr>" Wakeup_count_ops "-1" engine1]
  from instd [THEN conjunct2, THEN conjunct2, THEN conjunct2, THEN conjunct2, THEN conjunct1, THEN mp, OF hd]
  have d: "autosuspend_enable (env0\<lparr>sem_post_ret := -1\<rparr>) engine1 = Some (-1, engine1)"
    by (rule conjunct1)
  have he: "\<not> autosuspend_enabled engine1 \<and> fst (autosuspend_init env0 engine1) = 0
      \<and> autosuspend_ops (snd (autosuspend_init env0 engine1)) = Some Wakeup_count_ops
      \<and> ops_enable Wakeup_count_ops env0 (snd (autosuspend_init env0 engine1)) =
          Some (0, engine1\<lparr>suspend_lockout := 1\<rparr>)"
    using e1 o1 i1 post by simp
  have hf: "\<not> autosuspend_enabled engine1 \<and> fst (autosuspend_init env0 engine1) = 0"
    using e1 i1 by simp
  note inst1 = controller_enable_disable
    [OF k1, of env0 Wakeup_count_ops 0 "engine1\<lparr>suspend_lockout := 1\<rparr>"]
  from inst1 [THEN conjunct2, THEN conjunct2, THEN conjunct2, THEN conjunct2, THEN conjunct2, THEN conjunct1, THEN mp, OF he]
  have e: "autosuspend_enable env0 engine1 = Some (0, ?on)" .
  from inst1 [THEN conjunct2, THEN conjunct2, THEN conjunct2, THEN conjunct1, THEN mp, OF hf]
  have "autosuspend_disable env0 engine1 = Some (0, snd (autosuspend_init env0 engine1))"
    by (rule conjunct2 [THEN conjunct1])
  with i1 have f: "autosuspend_disable env0 engine1 = Some (0, engine1)"
    by simp
  have hh: "autosuspend_enabled ?on \<and> autosuspend_ops ?on = Some Wakeup_count_ops
      \<and> ops_disable Wakeup_count_ops env0 ?on = Some (0, ?on\<lparr>suspend_lockout := 0\<rparr>)"
    using e2 o2 dis by simp
  note inst2 = controller_enable_disable
    [OF k2, of env0 Wakeup_count_ops 0 "?on\<lparr>suspend_lockout := 0\<rparr>"]
  from inst2 [THEN conjunct1, THEN mp, OF e2]
  have g: "autosuspend_enable env0 ?on = Some (0, ?on)" .
  from inst2 [THEN conjunct2, THEN conjunct2, THEN conjunct2, THEN conjunct2, THEN conjunct2, THEN conjunct2, THEN conjunct2, THEN conjunct2, THEN conjunct2, THEN conjunct1, THEN mp, OF hh]
  have "autosuspend_disable env0 ?on =
       Some (0, ?on\<lparr>suspend_lockout := 0, autosuspend_enabled := False\<rparr>)" .
  then have h: "autosuspend_disable env0 ?on =
       Some (0, engine1\<lparr>suspend_lockout := 0, autosuspend_enabled := False\<rparr>)"
    by simp
  have hi: "autosuspend_enabled ?on \<and> autosuspend_ops ?on = Some Wakeup_count_ops
      \<and> ops_disable Wakeup_count_ops (env0\<lparr>sem_wait_ret := -1\<rparr>) ?on = Some (-1, ?on)
      \<and> (-1::int) \<noteq> 0"
    using e2 o2 disfail by simp
  note insti = controller_enable_disable
    [OF k2, of "env0\<lparr>sem_wait_ret := -1\<rparr>" Wakeup_count_ops "-1" ?on]
  from insti [THEN conjunct2, THEN conjunct2, THEN conjunct2, THEN conjunct2, THEN conjunct2, THEN conjunct2, THEN conjunct2, THEN conjunct2, THEN conjunct1, THEN mp, OF hi]
  have i: "autosuspend_disable (env0\<lparr>sem_wait_ret := -1\<rparr>) ?on = Some (-1, ?on)"
    by (rule conjunct1)
  have hj: "autosuspend_enabled ?dry \<and> autosuspend_ops ?dry = Some Wakeup_count_ops
      \<and> ops_disable Wakeup_count_ops env0 ?dry = None"
    using e3 o3 disblock by simp
  note instj = controller_enable_disable [OF k3, of env0 Wakeup_count_ops 0 engine1]
  from instj [THEN conjunct2, THEN conjunct2, THEN conjunct2, THEN conjunct2, THEN conjunct2, THEN conjunct2, THEN conjunct2, THEN conjunct2, THEN conjunct2, THEN conjunct2, THEN conjunct1, THEN mp, OF hj]
  have j: "autosuspend_disable env0 ?dry = None" .
  have hk: "\<not> autosuspend_enabled engine2
      \<and> fst (autosuspend_init (env0\<lparr>fb_reached := False\<rparr>) engine2) = 0
      \<and> autosuspend_ops (snd (autosuspend_init (env0\<lparr>fb_reached := False\<rparr>) engine2)) =
          Some Earlysuspend_ops
      \<and> ops_enable Earlysuspend_ops (env0\<lparr>fb_reached := False\<rparr>)
          (snd (autosuspend_init (env0\<lparr>fb_reached := False\<rparr>) engine2)) = None"
    using e4 o4 i4 enblock by simp
  note instk = controller_enable_disable
    [OF k4, of "env0\<lparr>fb_reached := False\<rparr>" Earlysuspend_ops 0 engine1]
  from instk [THEN conjunct2, THEN conjunct2, THEN conjunct2, THEN conjunct2, THEN conjunct2, THEN conjunct2, THEN conjunct1, THEN mp, OF hk]
  have k: "autosuspend_enable (env0\<lparr>fb_reached := False\<rparr>) engine2 = None" .
  note instl = controller_enable_disable [OF k0, of ?wc Wakeup_count_ops 0 ?on]
  from instl [THEN conjunct2, THEN conjunct2, THEN conjunct2, THEN conjunct2, THEN conjunct2, THEN conjunct2, THEN conjunct2, THEN conjunct2, THEN conjunct2, THEN conjunct2, THEN conjunct2, THEN conjunct1, THEN mp, OF a]
  have l: "engine_ok ?on" .
  show ?thesis
    using k0 a b c' d e f g h i j k l by (intro conjI)
qed

text \<open>
  C5 as stated fails on a call whose initialization fails: with the engine disabled and
  no backend able to initialize, \<open>autosuspend_disable\<close> returns -1, not 0, and
  \<open>autosuspend_enable\<close> returns -1 without a backend to forward to.
\<close>

theorem controller_init_failure_counterexample:
  "\<not> autosuspend_enabled engine0
   \<and> autosuspend_disable env_fail engine0 =
       Some (-1, engine0\<lparr>uinput_fd := 7, threads := [Powerbtnd_thread],
                         probes := [Earlysuspend_ops, Wakeup_count_ops]\<rparr>)
   \<and> autosuspend_enable env_fail engine0 =
       Some (-1, engine0\<lparr>uinput_fd := 7, threads := [Powerbtnd_thread],
                         probes := [Earlysuspend_ops, Wakeup_count_ops]\<rparr>)"
  by (simp add: env_fail_def env0_def engine0_def autosuspend_init_def
      autosuspend_enable_def autosuspend_disable_def
      autosuspend_earlysuspend_init_def autosuspend_wakeup_count_init_def
      init_android_power_button_def earlysuspend_flag_def Let_def)

section \<open>No commit while a disable holds the permit\<close>

lemma caller_inv_sys0: "caller_inv t sys0"
  by (simp add: caller_inv_def sys0_def permits_def)

lemma caller_inv_step:
  assumes "caller_inv t s" and "step a s = Some s'"
    and "caller_of a = None \<or> caller_of a = Some t"
  shows "caller_inv t s'"
proof (cases a)
  case (Loop_read n)
  with assms show ?thesis
    by (cases "lpc s") (auto simp: caller_inv_def permits_def split: if_splits caller_pc.splits)
next
  case (Loop_sem_wait ok)
  with assms show ?thesis
    by (cases "lpc s") (auto simp: caller_inv_def permits_def split: if_splits caller_pc.splits)
next
  case (Loop_commit r)
  with assms show ?thesis
    by (cases "lpc s") (auto simp: caller_inv_def permits_def split: if_splits caller_pc.splits)
next
  case (Loop_suspend r)
  with assms show ?thesis
    by (cases "lpc s") (auto simp: caller_inv_def permits_def split: if_splits caller_pc.splits)
next
  case (Loop_sem_post ok)
  with assms show ?thesis
    by (cases "lpc s"; cases "cpc s t") (auto simp: caller_inv_def permits_def split: if_splits caller_pc.splits)
next
  case (Call_enable u)
  with assms show ?thesis
    by (auto simp: caller_inv_def permits_def split: if_splits caller_pc.splits)
next
  case (Enable_op u ok)
  with assms show ?thesis
    by (auto simp: caller_inv_def permits_def split: if_splits caller_pc.splits)
next
  case (Enable_set u)
  with assms show ?thesis
    by (auto simp: caller_inv_def permits_def split: if_splits caller_pc.splits)
next
  case (Call_disable u)
  with assms show ?thesis
    by (auto simp: caller_inv_def permits_def split: if_splits caller_pc.splits)
next
  case (Disable_op u ok)
  with assms show ?thesis
    by (auto simp: caller_inv_def permits_def split: if_splits caller_pc.splits)
next
  case (Disable_set u)
  with assms show ?thesis
    by (auto simp: caller_inv_def permits_def split: if_splits caller_pc.splits)
qed

lemma caller_inv_run:
  "caller_inv t s \<Longrightarrow> run as s = Some s' \<Longrightarrow> one_caller t as \<Longrightarrow> caller_inv t s'"
proof (induction as arbitrary: s)
  case Nil
  then show ?case by simp
next
  case (Cons a as)
  from Cons.prems(2) obtain s1 where s1: "step a s = Some s1" and rest: "run as s1 = Some s'"
    by (auto split: option.splits)
  from Cons.prems(3) have a: "caller_of a = None \<or> caller_of a = Some t"
    and as: "one_caller t as"
    by (simp_all add: one_caller_def)
  from caller_inv_step [OF Cons.prems(1) s1 a] have "caller_inv t s1" .
  from Cons.IH [OF this rest as] show ?case .
qed

lemma filter_commit_wakeup [simp]: "filter is_commit (send_key_wakeup ufd) = []"
  by (simp add: send_key_wakeup_def emit_key_def)

lemma filter_post_wakeup [simp]: "filter (\<lambda>e. e = SemPost) (send_key_wakeup ufd) = []"
  by (simp add: send_key_wakeup_def emit_key_def)

lemma suspend_cycle_shape:
  "length (filter is_commit (cr_effects (suspend_cycle env c func ufd buf))) =
     (if reaches_commit c then 1 else 0)
   \<and> length (filter (\<lambda>e. e = SemPost) (cr_effects (suspend_cycle env c func ufd buf))) =
     (if reaches_commit c then 1 else 0)
   \<and> (if reaches_commit c
      then take 4 (cr_effects (suspend_cycle env c func ufd buf)) =
             [Usleep 100000, WakeupCountRead, SemWait,
              WakeupCountWrite (take (nat (wakeup_count_len c)) (wakeup_count c))]
           \<and> last (cr_effects (suspend_cycle env c func ufd buf)) = SemPost
      else SemPost \<notin> set (cr_effects (suspend_cycle env c func ufd buf)))"
  by (cases func) (auto simp: suspend_cycle_def reaches_commit_def Let_def)

text \<open>
  C1 (as amended). In every interleaving of the suspend loop with the calls of
  \<open>autosuspend_enable\<close> and \<open>autosuspend_disable\<close> made by one caller thread, no
  commit write executes while a \<open>disable\<close> holds a permit it consumed and no \<open>enable\<close>
  has given back: there is never more than one permit in all. In each pass of the loop
  the commit write comes only after a successful \<open>sem_wait\<close>, and a pass that acquired
  the semaphore ends with exactly one \<open>sem_post\<close>, while a pass that did not makes
  none.
\<close>

theorem no_commit_while_disabled:
  assumes "run as sys0 = Some s" and "one_caller t as"
  shows "locked_commits s = 0
       \<and> permits s + held s \<le> 1
       \<and> length (filter is_commit (cr_effects (suspend_cycle env c func ufd buf))) =
           (if reaches_commit c then 1 else 0)
       \<and> length (filter (\<lambda>e. e = SemPost) (cr_effects (suspend_cycle env c func ufd buf))) =
           (if reaches_commit c then 1 else 0)
       \<and> (if reaches_commit c
          then take 4 (cr_effects (suspend_cycle env c func ufd buf)) =
                 [Usleep 100000, WakeupCountRead, SemWait,
                  WakeupCountWrite (take (nat (wakeup_count_len c)) (wakeup_count c))]
               \<and> last (cr_effects (suspend_cycle env c func ufd buf)) = SemPost
          else SemPost \<notin> set (cr_effects (suspend_cycle env c func ufd buf)))"
proof -
  from caller_inv_run [OF caller_inv_sys0 assms]
  have "locked_commits s = 0" and "permits s + held s \<le> 1"
    by (simp_all add: caller_inv_def)
  with suspend_cycle_shape [of env c func ufd buf] show ?thesis by simp
qed

theorem no_commit_while_disabled_witness:
  "one_caller 0 trace1
   \<and> map_option commits (run trace1 sys0) = Some 1
   \<and> map_option held (run trace1 sys0) = Some 1
   \<and> map_option locked_commits (run trace1 sys0) = Some 0
   \<and> run (trace1 @ [Loop_sem_wait True]) sys0 = None"
proof -
  have one: "one_caller 0 trace1"
    by (simp add: one_caller_def trace1_def)
  have c: "map_option commits (run trace1 sys0) = Some 1"
    and h: "map_option held (run trace1 sys0) = Some 1"
    and b: "run (trace1 @ [Loop_sem_wait True]) sys0 = None"
    by (simp_all add: trace1_def sys0_def)
  from c obtain s where s: "run trace1 sys0 = Some s"
    by (cases "run trace1 sys0") simp_all
  from no_commit_while_disabled [OF s one] have "locked_commits s = 0"
    by blast
  with s have "map_option locked_commits (run trace1 sys0) = Some 0"
    by simp
  with one c h b show ?thesis by blast
qed

text \<open>
  C1 as stated fails for interleavings in which two threads call \<open>autosuspend_enable\<close>
  at once: both post a permit, the following \<open>disable\<close> consumes one of them, and the
  loop acquires the other and commits while the engine is disabled.
\<close>

theorem commit_while_disabled_counterexample:
  "map_option locked_commits (run trace2 sys0) = Some 1
   \<and> map_option held (run trace2 sys0) = Some 1
   \<and> map_option enabled_flag (run trace2 sys0) = Some False"
  by (simp add: trace2_def sys0_def)

end
